theory Spec2Isabelle
  imports Main "HOL-Library.Sublist"
begin

section \<open>The CLDR download script (scripts/download_import_cldr.py)\<close>

text \<open>
  The script is one linear procedure over the filesystem, the network, the terminal and
  one subprocess. The model passes a \<open>world\<close> record through every function and returns
  Python's exceptions as the left summand of the result, next to the world at the moment
  of the raise. The libraries the script calls (hashlib, zipfile, ElementTree, float
  arithmetic) are not code of the script: they are parameters, collected in \<open>lib\<close>.
\<close>

subsection \<open>Module constants (lines 21-27)\<close>

type_synonym bytes = "char list"

definition URL :: string where
  "URL = ''https://www.unicode.org/Public/cldr/31.0.1/core.zip''"

definition FILENAME :: string where
  "FILENAME = ''core-31.0.1.zip''"

definition FILESUM :: string where
  "FILESUM = ''01ade6c2d1f358e63c2ab6e2861d4caa7114ff45''"

definition BLKSIZE :: nat where
  "BLKSIZE = 131072"

definition SEED_URL :: string where
  "SEED_URL = ''https://www.unicode.org/repos/cldr/tags/release-31-0-1/seed/main/''"

definition SEED_FILENAME :: string where
  "SEED_FILENAME = ''seed-31.0.1.html''"

subsection \<open>Exceptions\<close>

text \<open>
  \<open>ChecksumMismatch d e\<close> is the \<open>RuntimeError('Checksum mismatch: %r != %r' % (d, e))\<close> of
  line 96, the only exception the script raises itself. The others are raised by the
  library calls and are not caught anywhere in the script.
\<close>

datatype error =
    ChecksumMismatch string string
  | URLError
  | ContentTooShortError
  | FileNotFoundError
  | FileExistsError
  | IsADirectoryError
  | BadZipFile
  | ParseError
  | TypeError
  | CalledProcessError int

subsection \<open>The filesystem\<close>

text \<open>
  A path is the list of its components below the root directory; the root is \<open>[]\<close> and
  is always a directory. The filesystem is an association list from paths to nodes.
\<close>

type_synonym path = "string list"

datatype node = File bytes | Dir

type_synonym filesystem = "(path \<times> node) list"

definition stat :: "filesystem \<Rightarrow> path \<Rightarrow> node option" where
  "stat fs p = (if p = [] then Some Dir else map_of fs p)"

definition exists_path :: "filesystem \<Rightarrow> path \<Rightarrow> bool" where
  "exists_path fs p = (stat fs p \<noteq> None)"

definition isfile :: "filesystem \<Rightarrow> path \<Rightarrow> bool" where
  "isfile fs p = (case stat fs p of Some (File b) \<Rightarrow> True | _ \<Rightarrow> False)"

definition isdir :: "filesystem \<Rightarrow> path \<Rightarrow> bool" where
  "isdir fs p = (stat fs p = Some Dir)"

definition dirname :: "path \<Rightarrow> path" where
  "dirname p = butlast p"

definition listdir :: "filesystem \<Rightarrow> path \<Rightarrow> path list" where
  "listdir fs d = [p \<leftarrow> map fst fs. p \<noteq> [] \<and> dirname p = d]"

definition remove :: "filesystem \<Rightarrow> path \<Rightarrow> filesystem" where
  "remove fs p = [e \<leftarrow> fs. fst e \<noteq> p]"

definition rmtree :: "filesystem \<Rightarrow> path \<Rightarrow> filesystem" where
  "rmtree fs d = [e \<leftarrow> fs. \<not> prefix d (fst e)]"

text \<open>\<open>open(p, 'wb')\<close> followed by writing \<open>b\<close> and closing.\<close>

definition write_file :: "filesystem \<Rightarrow> path \<Rightarrow> bytes \<Rightarrow> error + filesystem" where
  "write_file fs p b =
     (if isdir fs p then Inl IsADirectoryError
      else if \<not> isdir fs (dirname p) then Inl FileNotFoundError
      else Inr ((p, File b) # remove fs p))"

definition mkdir :: "filesystem \<Rightarrow> path \<Rightarrow> error + filesystem" where
  "mkdir fs p =
     (if exists_path fs p then Inl FileExistsError
      else if \<not> isdir fs (dirname p) then Inl FileNotFoundError
      else Inr ((p, Dir) # fs))"

text \<open>
  \<open>os.makedirs(name)\<close>: create the parent first when it does not exist, then the leaf.
\<close>

function makedirs :: "filesystem \<Rightarrow> path \<Rightarrow> error + filesystem" where
  "makedirs fs p =
     (if p \<noteq> [] \<and> dirname p \<noteq> [] \<and> \<not> exists_path fs (dirname p)
      then (case makedirs fs (dirname p) of
              Inl e \<Rightarrow> Inl e
            | Inr fs' \<Rightarrow> mkdir fs' p)
      else mkdir fs p)"
  by pat_completeness auto
termination
  by (relation "measure (\<lambda>(fs, p). length p)") (auto simp: dirname_def)

declare makedirs.simps [simp del]

subsection \<open>Library parameters\<close>

text \<open>
  An XML element as ElementTree gives it: tag, text (\<open>None\<close> when the element has no
  text) and children in document order.
\<close>

datatype element =
  Element (elem_tag: string) (elem_text: "string option") (elem_children: "element list")

text \<open>
  \<open>sha1_new\<close>, \<open>sha1_update\<close>, \<open>sha1_hexdigest\<close>: \<open>hashlib.sha1()\<close>, \<open>h.update(blk)\<close> and
  \<open>h.hexdigest()\<close> over a hash state of type \<open>'h\<close>.
  \<open>float_div a b\<close> is \<open>float(a) / b\<close> and \<open>float_mul_trunc x n\<close> is \<open>int(x * n)\<close> over
  a float type \<open>'f\<close>.
  \<open>zip_members\<close> reads an archive: its members in order, each a relative path with a file's
  bytes or a directory entry, or \<open>None\<close> when the bytes are no zip archive.
  \<open>xml_parse\<close> is \<open>ElementTree.parse\<close>: the root element, or \<open>None\<close> on a parse error.
\<close>

record ('h, 'f) lib =
  sha1_new :: 'h
  sha1_update :: "'h \<Rightarrow> bytes \<Rightarrow> 'h"
  sha1_hexdigest :: "'h \<Rightarrow> string"
  float_div :: "int \<Rightarrow> int \<Rightarrow> 'f"
  float_mul_trunc :: "'f \<Rightarrow> int \<Rightarrow> int"
  zip_members :: "bytes \<Rightarrow> (path \<times> node) list option"
  xml_parse :: "bytes \<Rightarrow> element option"

subsection \<open>The world\<close>

text \<open>
  \<open>remote k url\<close> is what the server answers to the request for \<open>url\<close> made after \<open>k\<close>
  earlier requests: nothing (a transport error), or a body with its Content-Length
  header when there is one. \<open>requests\<close> is the log of the URLs requested so far.
  \<open>stdout\<close> and \<open>stderr\<close> are the strings written to each stream, one per \<open>write\<close> call.
  \<open>winsize\<close> is the answer of the TIOCGWINSZ ioctl on standard input, (rows, columns),
  or \<open>None\<close> when any step of the probe raises.
  \<open>script_file\<close> is \<open>os.path.abspath(__file__)\<close> and \<open>executable\<close> is \<open>sys.executable\<close>.
  \<open>importer\<close> is the exit status of the subprocess for its argument vector and the
  filesystem it finds, and
  \<open>calls\<close> the log of the argument vectors of the subprocesses run so far.
\<close>

record response =
  body :: bytes
  content_length :: "int option"

record world =
  disk :: filesystem
  remote :: "nat \<Rightarrow> string \<Rightarrow> response option"
  requests :: "string list"
  stdout :: "string list"
  stderr :: "string list"
  winsize :: "(int \<times> int) option"
  script_file :: path
  executable :: path
  importer :: "path list \<Rightarrow> filesystem \<Rightarrow> int"
  calls :: "path list list"

type_synonym 'a result = "(error + 'a) \<times> world"

subsection \<open>\<open>log\<close> (lines 54-57)\<close>

definition log :: "string \<Rightarrow> world \<Rightarrow> world" where
  "log message w = w\<lparr>stderr := stderr w @ [message @ [CHR 0x0A]]\<rparr>"

definition path_str :: "path \<Rightarrow> string" where
  "path_str p = concat (map (\<lambda>c. CHR ''/'' # c) p)"

definition quoted :: "string \<Rightarrow> string" where
  "quoted s = CHR 0x27 # s @ [CHR 0x27]"

subsection \<open>\<open>is_good_file\<close> (lines 83-99)\<close>

text \<open>
  The loop of lines 89-93 over an open file: \<open>rest\<close> is what is left to read, \<open>f.read(n)\<close>
  returns the next \<open>n\<close> bytes (fewer at the end of the file) and moves on; an empty
  read ends the loop.
\<close>

function read_blocks :: "('h, 'f) lib \<Rightarrow> nat \<Rightarrow> 'h \<Rightarrow> bytes \<Rightarrow> 'h" where
  "read_blocks L n h rest =
     (let blk = take n rest in
      if blk = [] then h
      else read_blocks L n (sha1_update L h blk) (drop n rest))"
  by pat_completeness auto
termination
  by (relation "measure (\<lambda>(L, n, h, rest). length rest)") auto

declare read_blocks.simps [simp del]

definition file_digest :: "('h, 'f) lib \<Rightarrow> nat \<Rightarrow> bytes \<Rightarrow> string" where
  "file_digest L n contents = sha1_hexdigest L (read_blocks L n (sha1_new L) contents)"

definition is_good_file :: "('h, 'f) lib \<Rightarrow> path \<Rightarrow> world \<Rightarrow> bool result" where
  "is_good_file L filename w =
     (case stat (disk w) filename of
        Some (File contents) \<Rightarrow>
          (let digest = file_digest L BLKSIZE contents in
           if digest \<noteq> FILESUM then (Inl (ChecksumMismatch digest FILESUM), w)
           else (Inr True, w))
      | _ \<Rightarrow>
          (Inr False,
           log (''Local copy '' @ quoted (path_str filename) @ '' not found'') w))"

subsection \<open>\<open>get_terminal_width\<close> (lines 30-39)\<close>

text \<open>\<open>cr[1]\<close> of the unpacked window size, or 80 when anything in the \<open>try\<close> block raises.\<close>

definition get_terminal_width :: "world \<Rightarrow> int" where
  "get_terminal_width w = (case winsize w of Some cr \<Rightarrow> snd cr | None \<Rightarrow> 80)"

subsection \<open>\<open>reporthook\<close> (lines 42-51)\<close>

definition sys_stdout_write :: "string \<Rightarrow> world \<Rightarrow> world" where
  "sys_stdout_write s w = w\<lparr>stdout := stdout w @ [s]\<rparr>"

function decimal :: "nat \<Rightarrow> string" where
  "decimal n =
     (if n < 10 then [''0123456789'' ! n]
      else decimal (n div 10) @ [''0123456789'' ! (n mod 10)])"
  by pat_completeness auto
termination
  by (relation "measure id") auto

declare decimal.simps [simp del]

text \<open>
  The conversion \<open>'% 4d' % n\<close>: a blank or a minus sign, the decimal digits, padded with
  blanks on the left to four characters.
\<close>

definition format_4d :: "int \<Rightarrow> string" where
  "format_4d n =
     (let s = (if n < 0 then ''-'' else '' '') @ decimal (nat \<bar>n\<bar>)
      in replicate (4 - length s) CHR '' '' @ s)"

text \<open>
  The three strings written by one call of the hook, after the carriage return: Python's
  \<open>c * k\<close> is empty for a negative \<open>k\<close>, as \<open>replicate (nat k)\<close> is.
\<close>

definition progress_bar :: "int \<Rightarrow> int \<Rightarrow> int \<Rightarrow> string" where
  "progress_bar cols buffer done' =
     '' '' @ replicate (nat done') CHR ''='' @ replicate (nat (cols - done' - buffer)) CHR '' ''"

definition reporthook :: "('h, 'f) lib \<Rightarrow> int \<Rightarrow> int \<Rightarrow> int \<Rightarrow> world \<Rightarrow> world" where
  "reporthook L block_count block_size total_size w =
     (let bytes_transmitted = block_count * block_size;
          cols = get_terminal_width w;
          buffer = 6;
          percent = float_div L bytes_transmitted (if total_size = 0 then 1 else total_size);
          done' = float_mul_trunc L percent (cols - buffer);
          w1 = sys_stdout_write [CHR 0x0D] w;
          w2 = sys_stdout_write (progress_bar cols buffer done') w1;
          w3 = sys_stdout_write (format_4d (float_mul_trunc L percent 100) @ ''%'') w2
      in w3)"

subsection \<open>\<open>urlretrieve\<close> (urllib)\<close>

text \<open>
  The request is logged, then the body is written to \<open>filename\<close>; the hook, when there is
  one, is called with block numbers \<open>0, 1, ..., n\<close> for the \<open>n\<close> blocks of 8192 bytes
  read, the block size and the Content-Length (or -1). A body shorter than its
  Content-Length stays on disk and \<open>ContentTooShortError\<close> is raised.
\<close>

definition urlretrieve ::
  "string \<Rightarrow> path \<Rightarrow> (int \<Rightarrow> int \<Rightarrow> int \<Rightarrow> world \<Rightarrow> world) option \<Rightarrow> world \<Rightarrow> unit result" where
  "urlretrieve url filename hook w =
     (let w1 = w\<lparr>requests := requests w @ [url]\<rparr> in
      case remote w (length (requests w)) url of
        None \<Rightarrow> (Inl URLError, w1)
      | Some r \<Rightarrow>
          (case write_file (disk w1) filename (body r) of
             Inl e \<Rightarrow> (Inl e, w1)
           | Inr d \<Rightarrow>
               (let total = (case content_length r of None \<Rightarrow> - 1 | Some n \<Rightarrow> n);
                    nblocks = (length (body r) + 8191) div 8192;
                    w2 = w1\<lparr>disk := d\<rparr>;
                    w3 = (case hook of
                            None \<Rightarrow> w2
                          | Some h \<Rightarrow> fold (\<lambda>k. h (int k) 8192 total) [0..<Suc nblocks] w2)
                in if 0 \<le> total \<and> int (length (body r)) < total
                   then (Inl ContentTooShortError, w3)
                   else (Inr (), w3))))"

subsection \<open>\<open>get_seed_files\<close> (lines 60-80)\<close>

text \<open>Python's \<open>sub in s\<close> on strings.\<close>

fun str_contains :: "string \<Rightarrow> string \<Rightarrow> bool" where
  "str_contains sub [] = (sub = [])"
| "str_contains sub (c # cs) = (prefix sub (c # cs) \<or> str_contains sub cs)"

text \<open>
  \<open>html.findall('./body/ul/li/a')\<close>: one step of the path selects, in document order, the
  children with the given tag of every element selected so far, starting at the root.
\<close>

definition find_children :: "string \<Rightarrow> element list \<Rightarrow> element list" where
  "find_children t es = [c \<leftarrow> concat (map elem_children es). elem_tag c = t]"

definition findall_body_ul_li_a :: "element \<Rightarrow> element list" where
  "findall_body_ul_li_a root =
     find_children ''a'' (find_children ''li'' (find_children ''ul'' (find_children ''body'' [root])))"

text \<open>
  Line 72: \<open>'xml' in link.text\<close> raises TypeError when a link has no text. The result is
  the list of link texts that contain \<open>xml\<close>.
\<close>

definition seed_xmls :: "element list \<Rightarrow> error + string list" where
  "seed_xmls file_links =
     (if list_ex (\<lambda>link. elem_text link = None) file_links then Inl TypeError
      else Inr [the (elem_text link). link \<leftarrow> file_links, str_contains ''xml'' (the (elem_text link))])"

text \<open>
  The loop of lines 74-80. A link text is taken as one path component below the seed
  directory, the name of a file in the listing.
\<close>

fun fetch_seeds :: "string list \<Rightarrow> path \<Rightarrow> world \<Rightarrow> unit result" where
  "fetch_seeds [] seed_path w = (Inr (), w)"
| "fetch_seeds (xml_name # rest) seed_path w =
     (let xml_url = SEED_URL @ xml_name;
          xml_path = seed_path @ [xml_name]
      in if \<not> exists_path (disk w) xml_path
         then (case urlretrieve xml_url xml_path None
                      (log (''Downloading '' @ quoted xml_name) w) of
                 (Inl e, w') \<Rightarrow> (Inl e, w')
               | (Inr u, w') \<Rightarrow> fetch_seeds rest seed_path w')
         else fetch_seeds rest seed_path w)"

text \<open>\<open>ElementTree.parse(html_path)\<close>: open the file, then parse its bytes.\<close>

definition parse_file :: "('h, 'f) lib \<Rightarrow> path \<Rightarrow> world \<Rightarrow> error + element" where
  "parse_file L html_path w =
     (case stat (disk w) html_path of
        None \<Rightarrow> Inl FileNotFoundError
      | Some Dir \<Rightarrow> Inl IsADirectoryError
      | Some (File b) \<Rightarrow> (case xml_parse L b of None \<Rightarrow> Inl ParseError | Some root \<Rightarrow> Inr root))"

definition ensure_seed_path :: "path \<Rightarrow> world \<Rightarrow> unit result" where
  "ensure_seed_path seed_path w =
     (if \<not> exists_path (disk w) seed_path
      then (case makedirs (disk w) seed_path of
              Inl e \<Rightarrow> (Inl e, w)
            | Inr d \<Rightarrow> (Inr (), w\<lparr>disk := d\<rparr>))
      else (Inr (), w))"

definition ensure_index :: "path \<Rightarrow> world \<Rightarrow> unit result" where
  "ensure_index html_path w =
     (if \<not> exists_path (disk w) html_path
      then urlretrieve SEED_URL html_path None (log ''Downloading seed repo'' w)
      else (Inr (), w))"

definition get_seed_files :: "('h, 'f) lib \<Rightarrow> path \<Rightarrow> path \<Rightarrow> world \<Rightarrow> unit result" where
  "get_seed_files L download_path cldr_path w =
     (let seed_path = cldr_path @ [''seed'', ''main''] in
      case ensure_seed_path seed_path w of
        (Inl e, w1) \<Rightarrow> (Inl e, w1)
      | (Inr u, w1) \<Rightarrow>
          (let html_path = download_path @ [SEED_FILENAME] in
           case ensure_index html_path w1 of
             (Inl e, w2) \<Rightarrow> (Inl e, w2)
           | (Inr u, w2) \<Rightarrow>
               (case parse_file L html_path w2 of
                  Inl e \<Rightarrow> (Inl e, w2)
                | Inr html \<Rightarrow>
                    (case seed_xmls (findall_body_ul_li_a html) of
                       Inl e \<Rightarrow> (Inl e, w2)
                     | Inr names \<Rightarrow> fetch_seeds names seed_path w2))))"

subsection \<open>\<open>zipfile.ZipFile(zip_path).extractall(dest)\<close>\<close>

text \<open>
  A member's name loses its empty, \<open>.\<close> and \<open>..\<close> components before it is joined to the
  destination. Missing parent directories are created; a directory entry is created
  when it is not there, a file entry is written. The members are extracted in order, and
  an error leaves what was extracted before it.
\<close>

definition sanitize :: "path \<Rightarrow> path" where
  "sanitize rel = [x \<leftarrow> rel. x \<noteq> [] \<and> x \<noteq> ''.'' \<and> x \<noteq> ''..'']"

definition extract_member :: "filesystem \<Rightarrow> path \<Rightarrow> path \<times> node \<Rightarrow> error + filesystem" where
  "extract_member d dest member =
     (let targetpath = dest @ sanitize (fst member);
          upperdirs = dirname targetpath
      in case (if \<not> exists_path d upperdirs then makedirs d upperdirs else Inr d) of
           Inl e \<Rightarrow> Inl e
         | Inr d1 \<Rightarrow>
             (case snd member of
                Dir \<Rightarrow> (if \<not> isdir d1 targetpath then mkdir d1 targetpath else Inr d1)
              | File b \<Rightarrow> write_file d1 targetpath b))"

fun extract_members :: "(path \<times> node) list \<Rightarrow> path \<Rightarrow> filesystem \<Rightarrow> error option \<times> filesystem" where
  "extract_members [] dest d = (None, d)"
| "extract_members (m # ms) dest d =
     (case extract_member d dest m of
        Inl e \<Rightarrow> (Some e, d)
      | Inr d' \<Rightarrow> extract_members ms dest d')"

definition extractall :: "('h, 'f) lib \<Rightarrow> path \<Rightarrow> path \<Rightarrow> world \<Rightarrow> unit result" where
  "extractall L zip_path dest w =
     (case stat (disk w) zip_path of
        None \<Rightarrow> (Inl FileNotFoundError, w)
      | Some Dir \<Rightarrow> (Inl IsADirectoryError, w)
      | Some (File b) \<Rightarrow>
          (case zip_members L b of
             None \<Rightarrow> (Inl BadZipFile, w)
           | Some ms \<Rightarrow>
               (case extract_members ms dest (disk w) of
                  (Some e, d) \<Rightarrow> (Inl e, w\<lparr>disk := d\<rparr>)
                | (None, d) \<Rightarrow> (Inr (), w\<lparr>disk := d\<rparr>))))"

subsection \<open>\<open>subprocess.check_call\<close>\<close>

text \<open>Run the command, wait for it, raise \<open>CalledProcessError\<close> on a non-zero exit status.\<close>

definition check_call :: "path list \<Rightarrow> world \<Rightarrow> unit result" where
  "check_call argv w =
     (let w1 = w\<lparr>calls := calls w @ [argv]\<rparr>;
          returncode = importer w argv (disk w)
      in if returncode \<noteq> 0 then (Inl (CalledProcessError returncode), w1) else (Inr (), w1))"

subsection \<open>\<open>main\<close> (lines 102-133)\<close>

text \<open>\<open>os.path.splitext\<close> on a name without a separator: root and extension.\<close>

definition splitext :: "string \<Rightarrow> string \<times> string" where
  "splitext s =
     (let ext_rev = takeWhile (\<lambda>c. c \<noteq> CHR ''.'') (rev s);
          rest_rev = dropWhile (\<lambda>c. c \<noteq> CHR ''.'') (rev s)
      in if rest_rev = [] then (s, [])
         else (let root = rev (tl rest_rev)
               in if list_all (\<lambda>c. c = CHR ''.'') root then (s, [])
                  else (root, CHR ''.'' # rev ext_rev)))"

text \<open>
  The loop of lines 110-116. \<open>print()\<close> writes a newline to standard output.
\<close>

function fetch_loop :: "('h, 'f) lib \<Rightarrow> path \<Rightarrow> bool \<Rightarrow> world \<Rightarrow> bool result" where
  "fetch_loop L zip_path changed w =
     (case is_good_file L zip_path w of
        (Inl e, w1) \<Rightarrow> (Inl e, w1)
      | (Inr True, w1) \<Rightarrow> (Inr changed, w1)
      | (Inr False, w1) \<Rightarrow>
          (let w2 = log (''Downloading '' @ quoted FILENAME) w1;
               w3 = (if isfile (disk w2) zip_path
                     then w2\<lparr>disk := remove (disk w2) zip_path\<rparr> else w2)
           in case urlretrieve URL zip_path (Some (reporthook L)) w3 of
                (Inl e, w4) \<Rightarrow> (Inl e, w4)
              | (Inr u, w4) \<Rightarrow> fetch_loop L zip_path True (sys_stdout_write [CHR 0x0A] w4)))"
  by pat_completeness auto

termination
proof (relation "measure (\<lambda>(L, zip_path, changed, w). if isfile (disk w) zip_path then 0 else 1)",
    simp, goal_cases)
  case (1 L zip_path changed w x y b xa xb xc ya ba)
  have hook1: "disk (reporthook L a b c v) = disk v" for a b c v
    by (simp add: reporthook_def sys_stdout_write_def Let_def)
  have hook: "disk (fold (\<lambda>k. reporthook L (int k) 8192 t) ks v) = disk v" for ks v t
    by (induction ks arbitrary: v) (simp_all add: hook1)
  have absent: "\<not> isfile (disk w) zip_path"
    using 1(1,2,3)
    by (auto simp: is_good_file_def isfile_def Let_def split: option.splits node.splits if_splits)
  have present: "isfile (disk ya) zip_path"
    using 1(6,7)
    by (auto simp: urlretrieve_def write_file_def isfile_def isdir_def stat_def hook hook1 Let_def
        split: option.splits sum.splits if_splits)
  show ?case
    using absent present by (simp add: sys_stdout_write_def)
qed

declare fetch_loop.simps [simp del]

text \<open>Lines 117-126: the extraction, and what decides whether it happens.\<close>

definition extract_step ::
  "('h, 'f) lib \<Rightarrow> bool \<Rightarrow> path \<Rightarrow> path \<Rightarrow> path \<Rightarrow> world \<Rightarrow> unit result" where
  "extract_step L changed zip_path cldr_path common_path w =
     (if changed \<or> \<not> isdir (disk w) common_path
      then (let w1 = (if isdir (disk w) common_path
                      then (log (''Deleting old CLDR checkout in '' @ quoted (path_str cldr_path)) w)
                             \<lparr>disk := rmtree (disk w) common_path\<rparr>
                      else w);
                w2 = log (''Extracting CLDR to '' @ quoted (path_str cldr_path)) w1
            in extractall L zip_path cldr_path w2)
      else (Inr (), w))"

text \<open>The paths of lines 103-107 and 117, from the directory above the script's.\<close>

definition scripts_path :: "world \<Rightarrow> path" where
  "scripts_path w = dirname (script_file w)"

definition repo :: "world \<Rightarrow> path" where
  "repo w = dirname (scripts_path w)"

definition cldr_dl_path :: "world \<Rightarrow> path" where
  "cldr_dl_path w = repo w @ [''cldr'']"

definition cldr_path :: "world \<Rightarrow> path" where
  "cldr_path w = repo w @ [''cldr'', fst (splitext FILENAME)]"

definition zip_path :: "world \<Rightarrow> path" where
  "zip_path w = cldr_dl_path w @ [FILENAME]"

definition common_path :: "world \<Rightarrow> path" where
  "common_path w = cldr_path w @ [''common'']"

definition seed_path :: "world \<Rightarrow> path" where
  "seed_path w = cldr_path w @ [''seed'', ''main'']"

definition html_path :: "world \<Rightarrow> path" where
  "html_path w = cldr_dl_path w @ [SEED_FILENAME]"

text \<open>
  The fetch-verify-extract pipeline: lines 108-126 of \<open>main\<close>.
\<close>

definition pipeline :: "('h, 'f) lib \<Rightarrow> world \<Rightarrow> unit result" where
  "pipeline L w =
     (case fetch_loop L (zip_path w) False w of
        (Inl e, w1) \<Rightarrow> (Inl e, w1)
      | (Inr changed, w1) \<Rightarrow>
          extract_step L changed (zip_path w) (cldr_path w) (common_path w) w1)"

text \<open>The delegate call of lines 130-133.\<close>

definition import_cldr :: "world \<Rightarrow> unit result" where
  "import_cldr w =
     check_call [executable w, scripts_path w @ [''import_cldr.py''], cldr_path w] w"

definition main :: "('h, 'f) lib \<Rightarrow> world \<Rightarrow> unit result" where
  "main L w =
     (case pipeline L w of
        (Inl e, w2) \<Rightarrow> (Inl e, w2)
      | (Inr u, w2) \<Rightarrow>
          (case get_seed_files L (cldr_dl_path w) (cldr_path w) w2 of
             (Inl e, w3) \<Rightarrow> (Inl e, w3)
           | (Inr u, w3) \<Rightarrow> import_cldr w3))"

text \<open>
  The exit status of the process: an exception that reaches the top of the script ends
  the interpreter with status 1, a return from \<open>main\<close> with status 0.
\<close>

definition exit_status :: "unit result \<Rightarrow> int" where
  "exit_status r = (case fst r of Inl e \<Rightarrow> 1 | Inr u \<Rightarrow> 0)"

subsection \<open>Well-formed filesystems\<close>

text \<open>
  In a filesystem every entry lies in a directory: the parent of its path is a
  directory.
\<close>

definition wf_fs :: "filesystem \<Rightarrow> bool" where
  "wf_fs d = list_all (\<lambda>p. isdir d (dirname p)) (map fst d)"

subsection \<open>Properties named in the statements\<close>

text \<open>
  The contract of a hashlib hash object: feeding data in pieces is feeding their
  concatenation, and feeding nothing changes nothing.
\<close>

definition sha1_lawful :: "('h, 'f) lib \<Rightarrow> bool" where
  "sha1_lawful L =
     ((\<forall>h a b. sha1_update L (sha1_update L h a) b = sha1_update L h (a @ b)) \<and>
      (\<forall>h. sha1_update L h [] = h))"

text \<open>Hashing the whole contents with a single \<open>update\<close>.\<close>

definition one_shot_digest :: "('h, 'f) lib \<Rightarrow> bytes \<Rightarrow> string" where
  "one_shot_digest L contents = sha1_hexdigest L (sha1_update L (sha1_new L) contents)"

text \<open>The archive is on disk and its digest, as line 94 computes it, is the expected one.\<close>

definition archive_good :: "('h, 'f) lib \<Rightarrow> path \<Rightarrow> filesystem \<Rightarrow> bool" where
  "archive_good L p d =
     (case stat d p of
        Some (File contents) \<Rightarrow> file_digest L BLKSIZE contents = FILESUM
      | _ \<Rightarrow> False)"

text \<open>What no function of the script but \<open>check_call\<close> changes.\<close>

definition same_ambient :: "world \<Rightarrow> world \<Rightarrow> bool" where
  "same_ambient w w' =
     (remote w' = remote w \<and> winsize w' = winsize w \<and> script_file w' = script_file w \<and>
      executable w' = executable w \<and> importer w' = importer w \<and> calls w' = calls w)"

text \<open>The body is shorter than its Content-Length: line by line the test at the end of
  \<open>urlretrieve\<close>.\<close>

definition short_read :: "response \<Rightarrow> bool" where
  "short_read r =
     (case content_length r of
        None \<Rightarrow> False
      | Some n \<Rightarrow> 0 \<le> n \<and> int (length (body r)) < n)"

text \<open>The argument vector of lines 130-133.\<close>

definition import_argv :: "world \<Rightarrow> path list" where
  "import_argv w = [executable w, scripts_path w @ [''import_cldr.py''], cldr_path w]"

text \<open>The world in which the delegate is started, when pipeline and mirror succeed.\<close>

definition before_import :: "('h, 'f) lib \<Rightarrow> world \<Rightarrow> unit result" where
  "before_import L w =
     (case pipeline L w of
        (Inl e, w2) \<Rightarrow> (Inl e, w2)
      | (Inr u, w2) \<Rightarrow> get_seed_files L (cldr_dl_path w) (cldr_path w) w2)"

text \<open>
  Every name that the cached index page links and the filter of line 72 keeps is there
  below the seed directory.
\<close>

definition seeds_present :: "('h, 'f) lib \<Rightarrow> world \<Rightarrow> bool" where
  "seeds_present L w =
     (case parse_file L (html_path w) w of
        Inl e \<Rightarrow> True
      | Inr html \<Rightarrow>
          (case seed_xmls (findall_body_ul_li_a html) of
             Inl e \<Rightarrow> True
           | Inr names \<Rightarrow> list_all (\<lambda>n. exists_path (disk w) (seed_path w @ [n])) names))"

section \<open>Mock libraries, transports and filesystems\<close>

text \<open>
  Concrete instances of the parameters, for running the model: a hash object that
  collects what it is fed and knows one good archive, exact fractions for the floats, an
  archive of three members (one of them outside \<open>common\<close>), and a seed index page with
  five links.
\<close>

definition good_archive :: bytes where
  "good_archive = ''good archive''"

definition anchor :: "string \<Rightarrow> element" where
  "anchor t = Element ''li'' None [Element ''a'' (Some t) []]"

definition mock_index :: element where
  "mock_index =
     Element ''html'' None
       [Element ''head'' None [],
        Element ''body'' None
          [Element ''ul'' None
             (map anchor [''a.xml'', ''b.txt'', ''c.xml'', ''readme.XML'', ''d.xml''])]]"

definition mock_lib :: "(bytes, int \<times> int) lib" where
  "mock_lib =
     \<lparr>sha1_new = [],
      sha1_update = (\<lambda>h blk. h @ blk),
      sha1_hexdigest =
        (\<lambda>h. if h = good_archive then FILESUM else ''da39a3ee5e6b4b0d3255bfef95601890afd80709''),
      float_div = (\<lambda>a b. (a, b)),
      float_mul_trunc =
        (\<lambda>x n. sgn (fst x * n) * sgn (snd x) * (\<bar>fst x * n\<bar> div \<bar>snd x\<bar>)),
      zip_members =
        (\<lambda>b. if b = good_archive
             then Some [([''common''], Dir),
                        ([''common'', ''main'', ''en.xml''], File ''<ldml/>''),
                        ([''readme.html''], File ''<html/>'')]
             else None),
      xml_parse = (\<lambda>b. if b = ''index'' then Some mock_index else None)\<rparr>"

text \<open>
  A transport that answers every request: the good archive for the archive's URL, the
  index page for the seed URL, a small document for anything else.
\<close>

definition mock_remote :: "nat \<Rightarrow> string \<Rightarrow> response option" where
  "mock_remote k url =
     (if url = URL then Some \<lparr>body = good_archive, content_length = Some 12\<rparr>
      else if url = SEED_URL then Some \<lparr>body = ''index'', content_length = None\<rparr>
      else Some \<lparr>body = ''<ldml/>'', content_length = None\<rparr>)"

definition mock_world :: "filesystem \<Rightarrow> world" where
  "mock_world d =
     \<lparr>disk = d, remote = mock_remote, requests = [], stdout = [], stderr = [],
      winsize = None,
      script_file = [''babel'', ''scripts'', ''download_import_cldr.py''],
      executable = [''usr'', ''bin'', ''python''],
      importer = (\<lambda>argv d. 0),
      calls = []\<rparr>"

text \<open>A fresh checkout, one with a corrupt archive, and one with a seed file in place.\<close>

definition fs_fresh :: filesystem where
  "fs_fresh = [([''babel''], Dir), ([''babel'', ''scripts''], Dir), ([''babel'', ''cldr''], Dir)]"

definition fs_corrupt :: filesystem where
  "fs_corrupt = ([''babel'', ''cldr'', ''core-31.0.1.zip''], File ''truncated'') # fs_fresh"

definition fs_seeded :: filesystem where
  "fs_seeded =
     [([''babel'', ''cldr'', ''core-31.0.1'', ''seed'', ''main'', ''d.xml''], File ''<ldml/>''),
      ([''babel'', ''cldr'', ''core-31.0.1'', ''seed'', ''main''], Dir),
      ([''babel'', ''cldr'', ''core-31.0.1'', ''seed''], Dir),
      ([''babel'', ''cldr'', ''core-31.0.1''], Dir),
      ([''babel'', ''cldr'', ''seed-31.0.1.html''], File ''index'')] @ fs_fresh"

text \<open>What a successful run leaves behind.\<close>

definition fs_complete :: filesystem where
  "fs_complete =
     [([''babel'', ''cldr'', ''core-31.0.1'', ''seed'', ''main'', ''c.xml''], File ''<ldml/>''),
      ([''babel'', ''cldr'', ''core-31.0.1'', ''seed'', ''main'', ''a.xml''], File ''<ldml/>''),
      ([''babel'', ''cldr'', ''core-31.0.1'', ''seed'', ''main'', ''d.xml''], File ''<ldml/>''),
      ([''babel'', ''cldr'', ''core-31.0.1'', ''seed'', ''main''], Dir),
      ([''babel'', ''cldr'', ''core-31.0.1'', ''seed''], Dir),
      ([''babel'', ''cldr'', ''seed-31.0.1.html''], File ''index''),
      ([''babel'', ''cldr'', ''core-31.0.1'', ''readme.html''], File ''<html/>''),
      ([''babel'', ''cldr'', ''core-31.0.1'', ''common'', ''main'', ''en.xml''], File ''<ldml/>''),
      ([''babel'', ''cldr'', ''core-31.0.1'', ''common'', ''main''], Dir),
      ([''babel'', ''cldr'', ''core-31.0.1'', ''common''], Dir),
      ([''babel'', ''cldr'', ''core-31.0.1''], Dir),
      ([''babel'', ''cldr'', ''core-31.0.1.zip''], File good_archive)] @ fs_fresh"

section \<open>Facts about the filesystem operations\<close>

lemma map_of_remove:
  "map_of [e \<leftarrow> d. fst e \<noteq> p] q = (if q = p then None else map_of d q)"
  by (induction d) auto

lemma map_of_rmtree:
  "map_of [e \<leftarrow> d. \<not> prefix c (fst e)] q = (if prefix c q then None else map_of d q)"
  by (induction d) auto

lemma dirname_Nil [simp]: "dirname [] = []"
  by (simp add: dirname_def)

lemma dirname_snoc [simp]: "dirname (p @ [x]) = p"
  by (simp add: dirname_def)

lemma stat_root [simp]: "stat d [] = Some Dir"
  by (simp add: stat_def)

lemma stat_remove: "stat (remove d p) q = (if q = p \<and> q \<noteq> [] then None else stat d q)"
  by (simp add: stat_def remove_def map_of_remove)

lemma stat_rmtree:
  "stat (rmtree d c) q = (if prefix c q \<and> q \<noteq> [] then None else stat d q)"
  by (simp add: stat_def rmtree_def map_of_rmtree)

lemma stat_write_file:
  "write_file d p b = Inr d' \<Longrightarrow> stat d' q = (if q = p then Some (File b) else stat d q)"
  by (auto simp: write_file_def isdir_def stat_def remove_def map_of_remove split: if_splits)

lemma stat_mkdir:
  "mkdir d p = Inr d' \<Longrightarrow> stat d' q = (if q = p then Some Dir else stat d q)"
  by (auto simp: mkdir_def isdir_def stat_def split: if_splits)

lemma wf_fs_alt: "wf_fs d \<longleftrightarrow> (\<forall>p. stat d p \<noteq> None \<longrightarrow> stat d (dirname p) = Some Dir)"
proof
  assume wf: "wf_fs d"
  show "\<forall>p. stat d p \<noteq> None \<longrightarrow> stat d (dirname p) = Some Dir"
  proof (intro allI impI)
    fix p assume ex: "stat d p \<noteq> None"
    show "stat d (dirname p) = Some Dir"
    proof (cases "p = []")
      case True
      then show ?thesis by (simp add: dirname_def)
    next
      case False
      with ex have "p \<in> fst ` set d"
        by (simp add: stat_def map_of_eq_None_iff)
      with wf show ?thesis
        by (auto simp: wf_fs_def list_all_iff isdir_def)
    qed
  qed
next
  assume r: "\<forall>p. stat d p \<noteq> None \<longrightarrow> stat d (dirname p) = Some Dir"
  show "wf_fs d"
    unfolding wf_fs_def list_all_iff isdir_def
  proof
    fix p assume "p \<in> set (map fst d)"
    then have "map_of d p \<noteq> None"
      by (simp add: map_of_eq_None_iff)
    then have "stat d p \<noteq> None"
      by (simp add: stat_def)
    with r show "stat d (dirname p) = Some Dir" by blast
  qed
qed

lemma wf_write_file: "wf_fs d \<Longrightarrow> write_file d p b = Inr d' \<Longrightarrow> wf_fs d'"
  unfolding wf_fs_alt
  by (auto simp: stat_write_file) (auto simp: write_file_def isdir_def dirname_def split: if_splits)

lemma wf_mkdir: "wf_fs d \<Longrightarrow> mkdir d p = Inr d' \<Longrightarrow> wf_fs d'"
  unfolding wf_fs_alt
  by (auto simp: stat_mkdir) (auto simp: mkdir_def isdir_def exists_path_def dirname_def split: if_splits)

lemma prefix_dirname: "prefix c (dirname q) \<Longrightarrow> prefix c q"
  unfolding dirname_def using prefixeq_butlast prefix_order.trans by blast

lemma wf_rmtree: "wf_fs d \<Longrightarrow> wf_fs (rmtree d c)"
  unfolding wf_fs_alt
  by (auto simp: stat_rmtree dest: prefix_dirname split: if_splits)


lemma makedirs_mono:
  "makedirs d p = Inr d' \<Longrightarrow> stat d q = Some n \<Longrightarrow> stat d' q = Some n"
proof (induction d p arbitrary: d' rule: makedirs.induct)
  case (1 d p)
  have step: "mkdir d1 p = Inr d' \<Longrightarrow> stat d1 q = Some n \<Longrightarrow> stat d' q = Some n" for d1
    by (auto simp: stat_mkdir) (auto simp: mkdir_def exists_path_def split: if_splits)
  from "1.prems" "1.IH" step show ?case
    by (subst (asm) makedirs.simps) (auto split: if_splits sum.splits)
qed

lemma makedirs_other:
  "makedirs d p = Inr d' \<Longrightarrow> \<not> prefix q p \<Longrightarrow> stat d' q = stat d q"
proof (induction d p arbitrary: d' rule: makedirs.induct)
  case (1 d p)
  have np: "\<not> prefix q (dirname p)" "q \<noteq> p"
    using "1.prems"(2) prefix_dirname by auto
  from "1.prems"(1) "1.IH" np show ?case
    by (subst (asm) makedirs.simps) (auto split: if_splits sum.splits simp: stat_mkdir)
qed

lemma makedirs_isdir: "makedirs d p = Inr d' \<Longrightarrow> isdir d' p"
  by (subst (asm) makedirs.simps)
     (auto split: if_splits sum.splits simp: stat_mkdir isdir_def)

lemma wf_makedirs: "wf_fs d \<Longrightarrow> makedirs d p = Inr d' \<Longrightarrow> wf_fs d'"
proof (induction d p arbitrary: d' rule: makedirs.induct)
  case (1 d p)
  have "makedirs d p = Inr d'" by fact
  then show ?case
    unfolding makedirs.simps [of d p]
    using "1.prems"(1) "1.IH" by (auto split: if_splits sum.splits intro: wf_mkdir)
qed

section \<open>What each step changes\<close>

lemma same_ambient_refl [simp]: "same_ambient w w"
  by (simp add: same_ambient_def)

lemma same_ambient_trans: "same_ambient w w1 \<Longrightarrow> same_ambient w1 w2 \<Longrightarrow> same_ambient w w2"
  by (simp add: same_ambient_def)

lemma log_fields [simp]:
  "disk (log m w) = disk w" "requests (log m w) = requests w" "stdout (log m w) = stdout w"
  "stderr (log m w) = stderr w @ [m @ [CHR 0x0A]]"
  "remote (log m w) = remote w" "winsize (log m w) = winsize w"
  "script_file (log m w) = script_file w" "executable (log m w) = executable w"
  "importer (log m w) = importer w" "calls (log m w) = calls w"
  by (simp_all add: log_def)

lemma sys_stdout_write_fields [simp]:
  "disk (sys_stdout_write s w) = disk w" "requests (sys_stdout_write s w) = requests w"
  "stdout (sys_stdout_write s w) = stdout w @ [s]"
  "stderr (sys_stdout_write s w) = stderr w"
  "remote (sys_stdout_write s w) = remote w" "winsize (sys_stdout_write s w) = winsize w"
  "script_file (sys_stdout_write s w) = script_file w"
  "executable (sys_stdout_write s w) = executable w"
  "importer (sys_stdout_write s w) = importer w" "calls (sys_stdout_write s w) = calls w"
  by (simp_all add: sys_stdout_write_def)

lemma reporthook_fields [simp]:
  "disk (reporthook L a b c w) = disk w" "requests (reporthook L a b c w) = requests w"
  "stderr (reporthook L a b c w) = stderr w"
  "remote (reporthook L a b c w) = remote w" "winsize (reporthook L a b c w) = winsize w"
  "script_file (reporthook L a b c w) = script_file w"
  "executable (reporthook L a b c w) = executable w"
  "importer (reporthook L a b c w) = importer w" "calls (reporthook L a b c w) = calls w"
  by (simp_all add: reporthook_def Let_def)

lemma fold_reporthook_fields [simp]:
  "disk (fold (\<lambda>k. reporthook L (int k) b c) ks w) = disk w"
  "requests (fold (\<lambda>k. reporthook L (int k) b c) ks w) = requests w"
  "stderr (fold (\<lambda>k. reporthook L (int k) b c) ks w) = stderr w"
  "remote (fold (\<lambda>k. reporthook L (int k) b c) ks w) = remote w"
  "winsize (fold (\<lambda>k. reporthook L (int k) b c) ks w) = winsize w"
  "script_file (fold (\<lambda>k. reporthook L (int k) b c) ks w) = script_file w"
  "executable (fold (\<lambda>k. reporthook L (int k) b c) ks w) = executable w"
  "importer (fold (\<lambda>k. reporthook L (int k) b c) ks w) = importer w"
  "calls (fold (\<lambda>k. reporthook L (int k) b c) ks w) = calls w"
  by (induction ks arbitrary: w) simp_all

lemma urlretrieve_frame:
  assumes "hook = None \<or> hook = Some (reporthook L)"
  shows "same_ambient w (snd (urlretrieve url p hook w))"
    and "requests (snd (urlretrieve url p hook w)) = requests w @ [url]"
    and "stderr (snd (urlretrieve url p hook w)) = stderr w"
  using assms
  by (auto simp: urlretrieve_def Let_def same_ambient_def split: option.splits sum.splits
      simp del: upt_Suc)

lemma urlretrieve_None_stdout: "stdout (snd (urlretrieve url p None w)) = stdout w"
  by (auto simp: urlretrieve_def Let_def split: option.splits sum.splits)

lemma urlretrieve_ok:
  assumes "urlretrieve url p hook w = (Inr u, w')" and "hook = None \<or> hook = Some (reporthook L)"
  shows "\<exists>resp. remote w (length (requests w)) url = Some resp
               \<and> write_file (disk w) p (body resp) = Inr (disk w')"
  using assms
  by (auto simp: urlretrieve_def Let_def split: option.splits sum.splits if_splits
      simp del: upt_Suc)

lemma fetch_loop_file:
  "stat (disk w) p = Some (File c) \<Longrightarrow>
   fetch_loop L p ch w =
     (if file_digest L BLKSIZE c = FILESUM then (Inr ch, w)
      else (Inl (ChecksumMismatch (file_digest L BLKSIZE c) FILESUM), w))"
  by (simp add: fetch_loop.simps [of L p ch w] is_good_file_def Let_def)

lemma fetch_loop_nofile:
  "\<not> isfile (disk w) p \<Longrightarrow>
   fetch_loop L p ch w =
     (case urlretrieve URL p (Some (reporthook L))
             (log (''Downloading '' @ quoted FILENAME)
                (log (''Local copy '' @ quoted (path_str p) @ '' not found'') w)) of
        (Inl e, w4) \<Rightarrow> (Inl e, w4)
      | (Inr u, w4) \<Rightarrow> fetch_loop L p True (sys_stdout_write [CHR 0x0A] w4))"
  by (auto simp: fetch_loop.simps [of L p ch w] is_good_file_def Let_def isfile_def
      split: option.splits node.splits)

section \<open>The fetch loop runs its body at most once\<close>

lemma archive_good_file:
  "stat d p = Some (File c) \<Longrightarrow> archive_good L p d = (file_digest L BLKSIZE c = FILESUM)"
  by (simp add: archive_good_def)

lemma isfile_stat: "isfile d p \<longleftrightarrow> (\<exists>c. stat d p = Some (File c))"
  by (auto simp: isfile_def split: option.splits node.splits)

lemma archive_good_isfile: "archive_good L p d \<Longrightarrow> isfile d p"
  by (auto simp: archive_good_def isfile_def split: option.splits node.splits)

lemma fetch_loop_present:
  assumes "isfile (disk w) p"
  shows "snd (fetch_loop L p ch w) = w"
    and "archive_good L p (disk w) \<Longrightarrow> fetch_loop L p ch w = (Inr ch, w)"
    and "\<not> archive_good L p (disk w) \<Longrightarrow>
         \<exists>d. d \<noteq> FILESUM \<and> fetch_loop L p ch w = (Inl (ChecksumMismatch d FILESUM), w)"
proof -
  from assms obtain c where c: "stat (disk w) p = Some (File c)"
    by (auto simp: isfile_stat)
  show "snd (fetch_loop L p ch w) = w"
    by (simp add: fetch_loop_file [OF c])
  show "archive_good L p (disk w) \<Longrightarrow> fetch_loop L p ch w = (Inr ch, w)"
    by (simp add: fetch_loop_file [OF c] archive_good_file [OF c])
  show "\<not> archive_good L p (disk w) \<Longrightarrow>
         \<exists>d. d \<noteq> FILESUM \<and> fetch_loop L p ch w = (Inl (ChecksumMismatch d FILESUM), w)"
    by (simp add: fetch_loop_file [OF c] archive_good_file [OF c])
qed

lemma fetch_loop_absent:
  assumes absent: "\<not> isfile (disk w) p"
  shows "requests (snd (fetch_loop L p ch w)) = requests w @ [URL]"
    and "same_ambient w (snd (fetch_loop L p ch w))"
    and "fetch_loop L p ch w = (Inr c, w') \<Longrightarrow>
           c \<and> archive_good L p (disk w') \<and>
           (\<exists>resp. remote w (length (requests w)) URL = Some resp \<and>
                   write_file (disk w) p (body resp) = Inr (disk w'))"
proof -
  let ?w3 = "log (''Downloading '' @ quoted FILENAME)
               (log (''Local copy '' @ quoted (path_str p) @ '' not found'') w)"
  let ?r = "urlretrieve URL p (Some (reporthook L)) ?w3"
  have hook: "Some (reporthook L) = None \<or> Some (reporthook L) = Some (reporthook L)"
    by simp
  have req: "requests (snd ?r) = requests w @ [URL]"
    using urlretrieve_frame(2) [OF hook, where w = ?w3 and url = URL and p = p] by simp
  have amb: "same_ambient w (snd ?r)"
    using urlretrieve_frame(1) [OF hook, where w = ?w3 and url = URL and p = p]
    by (simp add: same_ambient_def)
  obtain r4 w4 where r4: "?r = (r4, w4)" by (cases ?r)
  let ?w5 = "sys_stdout_write [CHR 0x0A] w4"
  have ok: "\<exists>resp. remote w (length (requests w)) URL = Some resp \<and>
                  write_file (disk w) p (body resp) = Inr (disk w4)" if "r4 = Inr u" for u
    using urlretrieve_ok [OF r4 [unfolded that] hook] by simp
  have written: "\<exists>resp. remote w (length (requests w)) URL = Some resp \<and>
                  write_file (disk w) p (body resp) = Inr (disk w4) \<and>
                  stat (disk ?w5) p = Some (File (body resp))" if "r4 = Inr u" for u
    using ok [OF that] by (auto simp: stat_write_file)
  have next_loop: "fetch_loop L p ch w = fetch_loop L p True ?w5" if "r4 = Inr u" for u
    using r4 that by (simp add: fetch_loop_nofile [OF absent])
  have failed: "fetch_loop L p ch w = (Inl e, w4)" if "r4 = Inl e" for e
    using r4 that by (simp add: fetch_loop_nofile [OF absent])
  have unchanged: "snd (fetch_loop L p True ?w5) = ?w5" if "r4 = Inr u" for u
    using written [OF that] fetch_loop_present(1) [of ?w5 p L True] by (auto simp: isfile_stat)
  show "requests (snd (fetch_loop L p ch w)) = requests w @ [URL]"
  proof (cases r4)
    case (Inl e)
    with failed r4 req show ?thesis by simp
  next
    case (Inr u)
    with next_loop unchanged r4 req show ?thesis by simp
  qed
  show "same_ambient w (snd (fetch_loop L p ch w))"
  proof (cases r4)
    case (Inl e)
    with failed r4 amb show ?thesis by simp
  next
    case (Inr u)
    with next_loop unchanged r4 amb show ?thesis by (simp add: same_ambient_def)
  qed
  show "c \<and> archive_good L p (disk w') \<and>
        (\<exists>resp. remote w (length (requests w)) URL = Some resp \<and>
                write_file (disk w) p (body resp) = Inr (disk w'))"
    if res: "fetch_loop L p ch w = (Inr c, w')"
  proof (cases r4)
    case (Inl e)
    with failed res show ?thesis by simp
  next
    case (Inr u)
    from written [OF Inr] obtain resp
      where resp: "remote w (length (requests w)) URL = Some resp"
        and wr: "write_file (disk w) p (body resp) = Inr (disk w4)"
        and st: "stat (disk ?w5) p = Some (File (body resp))"
      by auto
    from res next_loop [OF Inr] have loop: "fetch_loop L p True ?w5 = (Inr c, w')"
      by simp
    from loop have "c" "w' = ?w5" "file_digest L BLKSIZE (body resp) = FILESUM"
      by (auto simp: fetch_loop_file [OF st] split: if_splits)
    with st resp wr show ?thesis
      by (auto simp: archive_good_def)
  qed
qed

section \<open>Extraction and the pipeline\<close>

lemma splitext_FILENAME: "fst (splitext FILENAME) = ''core-31.0.1''"
  by (simp add: splitext_def FILENAME_def)

lemma extractall_fields [simp]:
  "requests (snd (extractall L zp dest w)) = requests w"
  "stdout (snd (extractall L zp dest w)) = stdout w"
  "stderr (snd (extractall L zp dest w)) = stderr w"
  "remote (snd (extractall L zp dest w)) = remote w"
  "winsize (snd (extractall L zp dest w)) = winsize w"
  "script_file (snd (extractall L zp dest w)) = script_file w"
  "executable (snd (extractall L zp dest w)) = executable w"
  "importer (snd (extractall L zp dest w)) = importer w"
  "calls (snd (extractall L zp dest w)) = calls w"
  by (simp_all add: extractall_def split: option.splits node.splits prod.splits)

lemma extract_step_fields [simp]:
  "requests (snd (extract_step L ch zp cp common w)) = requests w"
  "stdout (snd (extract_step L ch zp cp common w)) = stdout w"
  "remote (snd (extract_step L ch zp cp common w)) = remote w"
  "winsize (snd (extract_step L ch zp cp common w)) = winsize w"
  "script_file (snd (extract_step L ch zp cp common w)) = script_file w"
  "executable (snd (extract_step L ch zp cp common w)) = executable w"
  "importer (snd (extract_step L ch zp cp common w)) = importer w"
  "calls (snd (extract_step L ch zp cp common w)) = calls w"
  by (simp_all add: extract_step_def Let_def)

lemma pipeline_mismatch:
  assumes "isfile (disk w) (zip_path w)" and "\<not> archive_good L (zip_path w) (disk w)"
  shows "\<exists>d. d \<noteq> FILESUM \<and> pipeline L w = (Inl (ChecksumMismatch d FILESUM), w)"
  using fetch_loop_present(3) [OF assms, of False]
  by (auto simp: pipeline_def)

lemma main_pipeline_error: "pipeline L w = (Inl e, w1) \<Longrightarrow> main L w = (Inl e, w1)"
  by (simp add: main_def)

lemma pipeline_requests_absent:
  assumes "\<not> isfile (disk w) (zip_path w)"
  shows "requests (snd (pipeline L w)) = requests w @ [URL]"
proof -
  obtain r w1 where loop: "fetch_loop L (zip_path w) False w = (r, w1)"
    by (cases "fetch_loop L (zip_path w) False w")
  from fetch_loop_absent(1) [OF assms, of L False] loop
  have "requests w1 = requests w @ [URL]" by simp
  with loop show ?thesis
    by (cases r) (simp_all add: pipeline_def)
qed

lemma paths:
  "zip_path w = repo w @ [''cldr'', ''core-31.0.1.zip'']"
  "cldr_path w = repo w @ [''cldr'', ''core-31.0.1'']"
  "cldr_dl_path w = repo w @ [''cldr'']"
  "common_path w = repo w @ [''cldr'', ''core-31.0.1'', ''common'']"
  "seed_path w = repo w @ [''cldr'', ''core-31.0.1'', ''seed'', ''main'']"
  "html_path w = repo w @ [''cldr'', ''seed-31.0.1.html'']"
  by (simp_all add: zip_path_def cldr_path_def cldr_dl_path_def common_path_def seed_path_def
      html_path_def splitext_FILENAME)
     (simp_all add: FILENAME_def SEED_FILENAME_def)

lemma mock_repo: "repo (mock_world d) = [''babel'']"
  by (simp add: repo_def scripts_path_def dirname_def mock_world_def)

lemma mock_paths:
  "zip_path (mock_world d) = [''babel'', ''cldr'', ''core-31.0.1.zip'']"
  "cldr_path (mock_world d) = [''babel'', ''cldr'', ''core-31.0.1'']"
  "cldr_dl_path (mock_world d) = [''babel'', ''cldr'']"
  "common_path (mock_world d) = [''babel'', ''cldr'', ''core-31.0.1'', ''common'']"
  "seed_path (mock_world d) = [''babel'', ''cldr'', ''core-31.0.1'', ''seed'', ''main'']"
  "html_path (mock_world d) = [''babel'', ''cldr'', ''seed-31.0.1.html'']"
  "scripts_path (mock_world d) = [''babel'', ''scripts'']"
  by (simp_all add: paths mock_repo)
     (simp add: scripts_path_def dirname_def mock_world_def)

lemma mock_world_fields [simp]:
  "disk (mock_world d) = d" "requests (mock_world d) = []" "stdout (mock_world d) = []"
  "stderr (mock_world d) = []" "calls (mock_world d) = []" "remote (mock_world d) = mock_remote"
  "winsize (mock_world d) = None"
  by (simp_all add: mock_world_def)

lemma urlretrieve_success:
  assumes "remote w (length (requests w)) url = Some resp"
    and "write_file (disk w) p (body resp) = Inr d'"
    and "\<not> short_read resp"
    and "hook = None \<or> hook = Some (reporthook L)"
  shows "fst (urlretrieve url p hook w) = Inr ()"
    and "disk (snd (urlretrieve url p hook w)) = d'"
  using assms
  by (auto simp: urlretrieve_def Let_def short_read_def split: option.splits
      simp del: upt_Suc)

lemma fetch_loop_absent_good:
  assumes absent: "\<not> isfile (disk w) p"
    and resp: "remote w (length (requests w)) URL = Some resp"
    and wr: "write_file (disk w) p (body resp) = Inr d'"
    and full: "\<not> short_read resp"
    and good: "file_digest L BLKSIZE (body resp) = FILESUM"
  shows "fst (fetch_loop L p ch w) = Inr True"
    and "disk (snd (fetch_loop L p ch w)) = d'"
proof -
  let ?w3 = "log (''Downloading '' @ quoted FILENAME)
               (log (''Local copy '' @ quoted (path_str p) @ '' not found'') w)"
  let ?r = "urlretrieve URL p (Some (reporthook L)) ?w3"
  have hook: "Some (reporthook L) = None \<or> Some (reporthook L) = Some (reporthook L)"
    by simp
  have resp3: "remote ?w3 (length (requests ?w3)) URL = Some resp"
    using resp by simp
  have wr3: "write_file (disk ?w3) p (body resp) = Inr d'"
    using wr by simp
  from urlretrieve_success [OF resp3 wr3 full hook]
  have ok: "fst ?r = Inr ()" and dk: "disk (snd ?r) = d'" by simp_all
  let ?w5 = "sys_stdout_write [CHR 0x0A] (snd ?r)"
  from wr dk have st: "stat (disk ?w5) p = Some (File (body resp))"
    by (simp add: stat_write_file)
  have step: "fetch_loop L p ch w = fetch_loop L p True ?w5"
    using ok by (cases ?r) (simp add: fetch_loop_nofile [OF absent])
  have last: "fetch_loop L p True ?w5 = (Inr True, ?w5)"
    by (subst fetch_loop_file [OF st]) (simp add: good)
  show "fst (fetch_loop L p ch w) = Inr True"
    unfolding step last by simp
  show "disk (snd (fetch_loop L p ch w)) = d'"
    unfolding step last using dk by simp
qed

lemma mock_digest_truncated:
  "file_digest mock_lib BLKSIZE ''truncated'' = ''da39a3ee5e6b4b0d3255bfef95601890afd80709''"
  by (simp add: file_digest_def BLKSIZE_def mock_lib_def good_archive_def
      read_blocks.simps [of _ _ _ "''truncated''"] read_blocks.simps [of _ _ _ "[]"])

lemma mock_digest_good: "file_digest mock_lib BLKSIZE good_archive = FILESUM"
  by (simp add: file_digest_def BLKSIZE_def mock_lib_def good_archive_def
      read_blocks.simps [of _ _ _ "''good archive''"] read_blocks.simps [of _ _ _ "[]"])

lemma mock_corrupt_stat:
  "stat fs_corrupt [''babel'', ''cldr'', ''core-31.0.1.zip''] = Some (File ''truncated'')"
  by (simp add: stat_def fs_corrupt_def)

lemma mock_corrupt_run:
  "main mock_lib (mock_world fs_corrupt) =
     (Inl (ChecksumMismatch ''da39a3ee5e6b4b0d3255bfef95601890afd80709'' FILESUM),
      mock_world fs_corrupt)"
proof -
  have st: "stat (disk (mock_world fs_corrupt)) (zip_path (mock_world fs_corrupt))
            = Some (File ''truncated'')"
    by (simp add: mock_paths mock_corrupt_stat)
  have "file_digest mock_lib BLKSIZE ''truncated'' \<noteq> FILESUM"
    by (simp add: mock_digest_truncated FILESUM_def)
  then show ?thesis
    by (simp add: main_def pipeline_def fetch_loop_file [OF st] mock_digest_truncated)
qed

lemma mock_fresh_absent: "\<not> isfile fs_fresh [''babel'', ''cldr'', ''core-31.0.1.zip'']"
  by (simp add: isfile_def stat_def fs_fresh_def)

lemma mock_fresh_write:
  "write_file fs_fresh [''babel'', ''cldr'', ''core-31.0.1.zip''] good_archive =
     Inr (([''babel'', ''cldr'', ''core-31.0.1.zip''], File good_archive) # fs_fresh)"
  by (simp add: write_file_def isdir_def stat_def dirname_def remove_def fs_fresh_def)

lemma mock_remote_URL:
  "mock_remote k URL = Some \<lparr>body = good_archive, content_length = Some 12\<rparr>"
  by (simp add: mock_remote_def)

lemma mock_full_read: "\<not> short_read \<lparr>body = good_archive, content_length = Some 12\<rparr>"
  by (simp add: short_read_def good_archive_def)

section \<open>The progress hook\<close>







section \<open>The ambient world through the pipeline and the seed mirror\<close>

lemma fetch_loop_ambient: "same_ambient w (snd (fetch_loop L p ch w))"
  by (cases "isfile (disk w) p") (simp_all add: fetch_loop_present(1) fetch_loop_absent(2))

lemma pipeline_ambient: "same_ambient w (snd (pipeline L w))"
proof -
  obtain r w1 where loop: "fetch_loop L (zip_path w) False w = (r, w1)"
    by (cases "fetch_loop L (zip_path w) False w")
  from fetch_loop_ambient [of w L "zip_path w" False] loop
  have "same_ambient w w1" by simp
  with loop show ?thesis
    by (cases r) (simp_all add: pipeline_def same_ambient_def)
qed

lemma urlretrieve_None_ambient: "same_ambient w (snd (urlretrieve url p None w))"
  by (rule urlretrieve_frame(1)) simp

lemma urlretrieve_None_requests:
  "requests (snd (urlretrieve url p None w)) = requests w @ [url]"
  by (auto simp: urlretrieve_def Let_def split: option.splits sum.splits)

lemma ensure_seed_path_fields:
  "same_ambient w (snd (ensure_seed_path sp w))"
  "requests (snd (ensure_seed_path sp w)) = requests w"
  "stdout (snd (ensure_seed_path sp w)) = stdout w"
  by (simp_all add: ensure_seed_path_def same_ambient_def split: sum.splits)

lemma ensure_index_fields:
  "same_ambient w (snd (ensure_index hp w))"
  "stdout (snd (ensure_index hp w)) = stdout w"
  using urlretrieve_None_ambient [of "log ''Downloading seed repo'' w" SEED_URL hp]
  by (simp_all add: ensure_index_def same_ambient_def urlretrieve_None_stdout)

lemma fetch_seeds_ambient: "same_ambient w (snd (fetch_seeds names sp w))"
proof (induction names arbitrary: w)
  case Nil
  show ?case by simp
next
  case (Cons x xs)
  let ?w1 = "log (''Downloading '' @ quoted x) w"
  let ?r = "urlretrieve (SEED_URL @ x) (sp @ [x]) None ?w1"
  have step: "same_ambient w (snd ?r)"
    using urlretrieve_None_ambient [of ?w1 "SEED_URL @ x" "sp @ [x]"]
    by (simp add: same_ambient_def)
  show ?case
  proof (cases "exists_path (disk w) (sp @ [x])")
    case True
    with Cons.IH show ?thesis by (simp add: Let_def)
  next
    case False
    obtain r w' where r: "?r = (r, w')" by (cases ?r)
    show ?thesis
    proof (cases r)
      case (Inl e)
      with r step False show ?thesis by (simp add: Let_def)
    next
      case (Inr u)
      from r step have "same_ambient w w'" by simp
      from same_ambient_trans [OF this Cons.IH [of w']] r Inr False show ?thesis
        by (simp add: Let_def)
    qed
  qed
qed

lemma get_seed_files_ambient: "same_ambient w (snd (get_seed_files L dl cp w))"
proof -
  let ?sp = "cp @ [''seed'', ''main'']" and ?hp = "dl @ [SEED_FILENAME]"
  obtain r1 w1 where r1: "ensure_seed_path ?sp w = (r1, w1)"
    by (cases "ensure_seed_path ?sp w")
  obtain r2 w2 where r2: "ensure_index ?hp w1 = (r2, w2)"
    by (cases "ensure_index ?hp w1")
  from ensure_seed_path_fields(1) [of w ?sp] r1 have a1: "same_ambient w w1" by simp
  from ensure_index_fields(1) [of w1 ?hp] r2 have "same_ambient w1 w2" by simp
  with a1 have a2: "same_ambient w w2" by (rule same_ambient_trans)
  have a3: "same_ambient w (snd (fetch_seeds names ?sp w2))" for names
    using same_ambient_trans [OF a2 fetch_seeds_ambient] .
  show ?thesis
    using r1 r2 a1 a2 a3
    by (auto simp: get_seed_files_def Let_def split: sum.splits prod.splits)
qed

lemma before_import_ambient: "same_ambient w (snd (before_import L w))"
proof -
  obtain r w2 where p: "pipeline L w = (r, w2)" by (cases "pipeline L w")
  from pipeline_ambient [of w L] p have a: "same_ambient w w2" by simp
  show ?thesis
  proof (cases r)
    case (Inl e)
    with p a show ?thesis by (simp add: before_import_def)
  next
    case (Inr u)
    from same_ambient_trans [OF a get_seed_files_ambient] p Inr show ?thesis
      by (simp add: before_import_def)
  qed
qed

lemma main_before_import:
  "main L w =
     (case before_import L w of
        (Inl e, w3) \<Rightarrow> (Inl e, w3)
      | (Inr u, w3) \<Rightarrow> import_cldr w3)"
  by (simp add: main_def before_import_def split: prod.splits sum.splits)

lemma import_argv_ambient: "same_ambient w w' \<Longrightarrow> import_argv w' = import_argv w"
  by (simp add: import_argv_def same_ambient_def scripts_path_def cldr_path_def repo_def)

section \<open>The digest loop\<close>

lemma read_blocks_update:
  assumes "sha1_lawful L" and "0 < n"
  shows "read_blocks L n h rest = sha1_update L h rest"
  using assms
proof (induction L n h rest rule: read_blocks.induct)
  case (1 L n h rest)
  show ?case
  proof (cases "take n rest = []")
    case True
    with "1.prems" have "rest = []" by simp
    with "1.prems" show ?thesis
      by (simp add: read_blocks.simps [of L n h "[]"] sha1_lawful_def)
  next
    case False
    have "read_blocks L n h rest = read_blocks L n (sha1_update L h (take n rest)) (drop n rest)"
      using False by (simp add: read_blocks.simps [of L n h rest])
    also have "\<dots> = sha1_update L (sha1_update L h (take n rest)) (drop n rest)"
      using "1.IH" [OF refl False] "1.prems" by simp
    also have "\<dots> = sha1_update L h (take n rest @ drop n rest)"
      using "1.prems"(1) by (simp add: sha1_lawful_def)
    finally show ?thesis by simp
  qed
qed

lemma mock_lib_lawful: "sha1_lawful mock_lib"
  by (simp add: sha1_lawful_def mock_lib_def)

section \<open>Runs on the mock worlds\<close>

lemma mock_seed_names:
  "seed_xmls (findall_body_ul_li_a mock_index) = Inr [''a.xml'', ''c.xml'', ''d.xml'']"
  by (simp add: seed_xmls_def findall_body_ul_li_a_def find_children_def mock_index_def
      anchor_def)

lemma mock_complete_stat:
  "stat fs_complete [''babel'', ''cldr'', ''core-31.0.1.zip''] = Some (File good_archive)"
  "stat fs_complete [''babel'', ''cldr'', ''core-31.0.1'', ''common''] = Some Dir"
  "stat fs_complete [''babel'', ''cldr'', ''core-31.0.1'', ''seed'', ''main''] = Some Dir"
  "stat fs_complete [''babel'', ''cldr'', ''seed-31.0.1.html''] = Some (File ''index'')"
  "stat fs_complete [''babel'', ''cldr'', ''core-31.0.1'', ''seed'', ''main'', ''a.xml'']
     = Some (File ''<ldml/>'')"
  "stat fs_complete [''babel'', ''cldr'', ''core-31.0.1'', ''seed'', ''main'', ''c.xml'']
     = Some (File ''<ldml/>'')"
  "stat fs_complete [''babel'', ''cldr'', ''core-31.0.1'', ''seed'', ''main'', ''d.xml'']
     = Some (File ''<ldml/>'')"
  by (simp_all add: stat_def fs_complete_def)

lemma mock_complete_pipeline:
  assumes "disk w = fs_complete" and "repo w = [''babel'']"
  shows "pipeline mock_lib w = (Inr (), w)"
proof -
  have st: "stat (disk w) (zip_path w) = Some (File good_archive)"
    using assms by (simp add: paths mock_complete_stat)
  have dir: "isdir (disk w) (common_path w)"
    using assms by (simp add: paths isdir_def mock_complete_stat)
  show ?thesis
    using dir
    by (simp add: pipeline_def fetch_loop_file [OF st] mock_digest_good extract_step_def)
qed

lemma mock_complete_seed_files:
  assumes "disk w = fs_complete" and "repo w = [''babel'']"
  shows "get_seed_files mock_lib (cldr_dl_path w) (cldr_path w) w = (Inr (), w)"
proof -
  have parsed: "xml_parse mock_lib ''index'' = Some mock_index"
    by (simp add: mock_lib_def)
  show ?thesis
    using assms
    by (simp add: get_seed_files_def paths ensure_seed_path_def ensure_index_def
        exists_path_def mock_complete_stat SEED_FILENAME_def parse_file_def parsed
        mock_seed_names)
qed

lemma mock_complete_run:
  assumes "disk w = fs_complete" and "repo w = [''babel'']"
  shows "before_import mock_lib w = (Inr (), w)"
  using assms
  by (simp add: before_import_def mock_complete_pipeline mock_complete_seed_files)

lemma mock_complete_before_import:
  "fst (before_import mock_lib (mock_world fs_complete)) = Inr ()"
  by (simp add: mock_complete_run mock_repo)

lemma mock_complete_before_import_failing:
  "fst (before_import mock_lib ((mock_world fs_complete)\<lparr>importer := \<lambda>argv d. 2\<rparr>)) = Inr ()"
proof -
  have "repo ((mock_world fs_complete)\<lparr>importer := \<lambda>argv d. 2\<rparr>) = [''babel'']"
    by (simp add: repo_def scripts_path_def dirname_def mock_world_def)
  then show ?thesis
    by (simp add: mock_complete_run)
qed

lemma mock_corrupt_pipeline:
  "pipeline mock_lib (mock_world fs_corrupt) =
     (Inl (ChecksumMismatch ''da39a3ee5e6b4b0d3255bfef95601890afd80709'' FILESUM),
      mock_world fs_corrupt)"
proof -
  have st: "stat (disk (mock_world fs_corrupt)) (zip_path (mock_world fs_corrupt))
            = Some (File ''truncated'')"
    by (simp add: mock_paths mock_corrupt_stat)
  show ?thesis
    by (simp add: pipeline_def fetch_loop_file [OF st] mock_digest_truncated FILESUM_def)
qed

section \<open>The seed mirror\<close>

lemma fetch_seeds_all_present:
  "list_all (\<lambda>n. exists_path (disk w) (sp @ [n])) names \<Longrightarrow>
   fetch_seeds names sp w = (Inr (), w)"
  by (induction names) (simp_all add: Let_def)

lemma makedirs_exists_mono:
  "makedirs d p = Inr d' \<Longrightarrow> exists_path d q \<Longrightarrow> exists_path d' q"
  by (auto simp: exists_path_def dest: makedirs_mono)

lemma parse_file_stat:
  "stat (disk w1) hp = stat (disk w) hp \<Longrightarrow> parse_file L hp w1 = parse_file L hp w"
  by (simp add: parse_file_def)

lemma get_seed_files_cached_no_requests:
  assumes cached: "exists_path (disk w) (html_path w)"
    and seeds: "seeds_present L w"
  shows "requests (snd (get_seed_files L (cldr_dl_path w) (cldr_path w) w)) = requests w"
proof -
  let ?sp = "cldr_path w @ [''seed'', ''main'']"
  let ?hp = "cldr_dl_path w @ [SEED_FILENAME]"
  have sp: "?sp = seed_path w" by (simp add: seed_path_def)
  have hp: "?hp = html_path w" by (simp add: html_path_def)
  obtain r1 w1 where r1: "ensure_seed_path ?sp w = (r1, w1)"
    by (cases "ensure_seed_path ?sp w")
  have req1: "requests w1 = requests w"
    using ensure_seed_path_fields(2) [of ?sp w] r1 by simp
  show ?thesis
  proof (cases r1)
    case (Inl e)
    with r1 req1 show ?thesis by (simp add: get_seed_files_def)
  next
    case (Inr u)
    have mono: "stat (disk w1) q = Some n" if "stat (disk w) q = Some n" for q n
      using r1 that
      by (auto simp: ensure_seed_path_def split: if_splits sum.splits dest: makedirs_mono)
    from cached obtain n where "stat (disk w) ?hp = Some n"
      by (auto simp: exists_path_def hp)
    from mono [OF this] this have same: "stat (disk w1) ?hp = stat (disk w) ?hp"
      and cached1: "exists_path (disk w1) ?hp"
      by (simp_all add: exists_path_def)
    have idx: "ensure_index ?hp w1 = (Inr (), w1)"
      using cached1 by (simp add: ensure_index_def)
    have parse: "parse_file L ?hp w1 = parse_file L (html_path w) w"
      using parse_file_stat [OF same] by (simp add: hp)
    have present: "list_all (\<lambda>n. exists_path (disk w1) (?sp @ [n])) names"
      if "parse_file L (html_path w) w = Inr html"
        and "seed_xmls (findall_body_ul_li_a html) = Inr names" for html names
    proof -
      from seeds that
      have "list_all (\<lambda>n. exists_path (disk w) (seed_path w @ [n])) names"
        by (simp add: seeds_present_def)
      then show ?thesis
        using mono by (auto simp: list_all_iff exists_path_def sp)
    qed
    show ?thesis
    proof (cases "parse_file L (html_path w) w")
      case (Inl e)
      with r1 Inr idx parse req1 show ?thesis
        by (simp add: get_seed_files_def)
    next
      case html: (Inr html)
      show ?thesis
      proof (cases "seed_xmls (findall_body_ul_li_a html)")
        case (Inl e)
        with r1 Inr idx parse html req1 show ?thesis
          by (simp add: get_seed_files_def)
      next
        case names: (Inr names)
        from fetch_seeds_all_present [OF present [OF html names]]
        have "fetch_seeds names ?sp w1 = (Inr (), w1)" .
        with r1 Inr idx parse html names req1 show ?thesis
          by (simp add: get_seed_files_def)
      qed
    qed
  qed
qed

lemma import_cldr_requests: "requests (snd (import_cldr w)) = requests w"
  by (simp add: import_cldr_def check_call_def Let_def)

lemma pipeline_valid_skip:
  assumes "archive_good L (zip_path w) (disk w)" and "isdir (disk w) (common_path w)"
  shows "pipeline L w = (Inr (), w)"
proof -
  from assms(1) have "isfile (disk w) (zip_path w)"
    by (rule archive_good_isfile)
  from fetch_loop_present(2) [OF this assms(1), of False]
  show ?thesis
    using assms(2) by (simp add: pipeline_def extract_step_def)
qed

lemma urlretrieve_None_ok:
  assumes "urlretrieve url p None w = (Inr u, w')"
  shows "\<exists>resp. remote w (length (requests w)) url = Some resp
               \<and> write_file (disk w) p (body resp) = Inr (disk w')"
  using assms
  by (auto simp: urlretrieve_def Let_def split: option.splits sum.splits if_splits)

lemma str_contains_sublist: "str_contains sub s \<longleftrightarrow> sublist sub s"
  by (induction s) (auto simp: sublist_Cons_right)

lemma seed_xmls_names:
  assumes "seed_xmls links = Inr names"
  shows "set names = {n. Some n \<in> elem_text ` set links \<and> str_contains ''xml'' n}"
proof -
  from assms have all: "\<forall>a \<in> set links. elem_text a \<noteq> None"
    and names: "names = [the (elem_text a). a \<leftarrow> links, str_contains ''xml'' (the (elem_text a))]"
    by (auto simp: seed_xmls_def list_ex_iff split: if_splits)
  show ?thesis
  proof (intro set_eqI iffI)
    fix n assume "n \<in> set names"
    with names obtain a where "a \<in> set links" "n = the (elem_text a)" "str_contains ''xml'' n"
      by auto
    with all show "n \<in> {n. Some n \<in> elem_text ` set links \<and> str_contains ''xml'' n}"
      by force
  next
    fix n assume "n \<in> {n. Some n \<in> elem_text ` set links \<and> str_contains ''xml'' n}"
    then obtain a where "a \<in> set links" "elem_text a = Some n" "str_contains ''xml'' n"
      by force
    with names show "n \<in> set names" by force
  qed
qed

lemma fetch_seeds_requests:
  assumes "fetch_seeds names sp w = (Inr (), w')"
  shows "\<exists>fetched. requests w' = requests w @ map ((@) SEED_URL) fetched
           \<and> distinct fetched
           \<and> set fetched = {n \<in> set names. \<not> exists_path (disk w) (sp @ [n])}
           \<and> (\<forall>q. (\<forall>n \<in> set names. q \<noteq> sp @ [n]) \<longrightarrow> stat (disk w') q = stat (disk w) q)"
  using assms
proof (induction names arbitrary: w)
  case Nil
  then show ?case by simp
next
  case (Cons x xs)
  show ?case
  proof (cases "exists_path (disk w) (sp @ [x])")
    case True
    with Cons.prems have "fetch_seeds xs sp w = (Inr (), w')"
      by (simp add: Let_def)
    from Cons.IH [OF this] obtain fetched
      where f: "requests w' = requests w @ map ((@) SEED_URL) fetched" "distinct fetched"
        "set fetched = {n \<in> set xs. \<not> exists_path (disk w) (sp @ [n])}"
        "\<forall>q. (\<forall>n \<in> set xs. q \<noteq> sp @ [n]) \<longrightarrow> stat (disk w') q = stat (disk w) q"
      by blast
    from f True show ?thesis
      by (intro exI [of _ fetched]) auto
  next
    case False
    let ?w1 = "log (''Downloading '' @ quoted x) w"
    let ?r = "urlretrieve (SEED_URL @ x) (sp @ [x]) None ?w1"
    obtain r w2 where r: "?r = (r, w2)" by (cases ?r)
    with Cons.prems False obtain u where ru: "r = Inr u"
      and rest: "fetch_seeds xs sp w2 = (Inr (), w')"
      by (cases r) (auto simp: Let_def)
    from urlretrieve_None_requests [of "SEED_URL @ x" "sp @ [x]" ?w1] r
    have req: "requests w2 = requests w @ [SEED_URL @ x]" by simp
    from urlretrieve_None_ok [OF r [unfolded ru]] obtain resp :: response
      where wr: "write_file (disk w) (sp @ [x]) (body resp) = Inr (disk w2)" by auto
    note st = stat_write_file [OF wr]
    from Cons.IH [OF rest] obtain fetched
      where f: "requests w' = requests w2 @ map ((@) SEED_URL) fetched" "distinct fetched"
        "set fetched = {n \<in> set xs. \<not> exists_path (disk w2) (sp @ [n])}"
        "\<forall>q. (\<forall>n \<in> set xs. q \<noteq> sp @ [n]) \<longrightarrow> stat (disk w') q = stat (disk w2) q"
      by blast
    have ex2: "exists_path (disk w2) (sp @ [n]) \<longleftrightarrow> n = x \<or> exists_path (disk w) (sp @ [n])" for n
      by (simp add: exists_path_def st)
    show ?thesis
    proof (intro exI [of _ "x # fetched"] conjI)
      show "requests w' = requests w @ map ((@) SEED_URL) (x # fetched)"
        using f(1) req by simp
      show "distinct (x # fetched)"
        using f(2,3) ex2 by auto
      show "set (x # fetched) = {n \<in> set (x # xs). \<not> exists_path (disk w) (sp @ [n])}"
        using f(3) ex2 False by auto
      show "\<forall>q. (\<forall>n \<in> set (x # xs). q \<noteq> sp @ [n]) \<longrightarrow> stat (disk w') q = stat (disk w) q"
        using f(4) st by auto
    qed
  qed
qed

section \<open>The claims\<close>

text \<open>
  C9. For every file contents and every positive block size, the digest that the loop of
  \<open>is_good_file\<close> computes (read a block, update the hash, until an empty read) is the
  digest of hashing the whole contents in one step, for a hash object that keeps
  hashlib's contract; so the digest is the same for any two positive block sizes, and
  for the script's own \<open>BLKSIZE\<close>.
\<close>

theorem C9_streaming_digest:
  assumes "sha1_lawful L" and "0 < n" and "0 < m"
  shows "file_digest L n contents = one_shot_digest L contents
       \<and> file_digest L n contents = file_digest L m contents
       \<and> file_digest L BLKSIZE contents = one_shot_digest L contents"
  using assms
  by (simp add: file_digest_def one_shot_digest_def read_blocks_update BLKSIZE_def)

theorem C9_streaming_digest_witness:
  "sha1_lawful mock_lib \<and> (0::nat) < 3 \<and> (0::nat) < 5
   \<and> file_digest mock_lib 3 good_archive = one_shot_digest mock_lib good_archive
   \<and> file_digest mock_lib 3 good_archive = file_digest mock_lib 5 good_archive
   \<and> file_digest mock_lib BLKSIZE good_archive = one_shot_digest mock_lib good_archive
   \<and> one_shot_digest mock_lib good_archive = FILESUM"
proof -
  have digest: "one_shot_digest mock_lib good_archive = FILESUM"
    by (simp add: one_shot_digest_def mock_lib_def)
  show ?thesis
    using C9_streaming_digest [OF mock_lib_lawful, of 3 5 good_archive] mock_lib_lawful digest
    by auto
qed

text \<open>
  C10. For every path that names an existing regular file, \<open>is_good_file\<close> returns true or
  raises the checksum-mismatch error and never returns false; so the body of the loop in
  \<open>main\<close> (lines 111-116, with the deletion of line 113 and the fetch of line 114) is
  entered only when the archive file is absent: with the file present the loop leaves
  the world as it found it, the request log included.
\<close>

theorem C10_existing_file_never_false:
  assumes "isfile (disk w) p"
  shows "fst (is_good_file L p w) \<noteq> Inr False
       \<and> (fst (is_good_file L p w) = Inr True
          \<or> (\<exists>d. fst (is_good_file L p w) = Inl (ChecksumMismatch d FILESUM)))
       \<and> snd (fetch_loop L p changed w) = w"
proof -
  from assms obtain c where "stat (disk w) p = Some (File c)"
    by (auto simp: isfile_stat)
  then have "fst (is_good_file L p w) \<noteq> Inr False
       \<and> (fst (is_good_file L p w) = Inr True
          \<or> (\<exists>d. fst (is_good_file L p w) = Inl (ChecksumMismatch d FILESUM)))"
    by (simp add: is_good_file_def Let_def)
  with fetch_loop_present(1) [OF assms] show ?thesis by simp
qed

theorem C10_existing_file_never_false_witness:
  "isfile (disk (mock_world fs_corrupt)) (zip_path (mock_world fs_corrupt))
   \<and> fst (is_good_file mock_lib (zip_path (mock_world fs_corrupt)) (mock_world fs_corrupt))
       \<noteq> Inr False
   \<and> snd (fetch_loop mock_lib (zip_path (mock_world fs_corrupt)) False (mock_world fs_corrupt))
       = mock_world fs_corrupt"
proof -
  have present: "isfile (disk (mock_world fs_corrupt)) (zip_path (mock_world fs_corrupt))"
    by (simp add: mock_paths isfile_def stat_def fs_corrupt_def)
  from C10_existing_file_never_false [OF present, of mock_lib False] present
  show ?thesis by simp
qed

text \<open>
  C2. \<open>is_good_file\<close> raises exactly when the file exists and the digest it computes
  differs from the expected one, and what it raises is the checksum-mismatch error; the
  error aborts the run (\<open>main\<close> ends with it, exit status 1, the world untouched). An
  absent file is not an error: the result is false, and the fetch proceeds (the
  pipeline's next request is for the archive's URL).
\<close>

theorem C2_checksum_mismatch_iff:
  "((\<exists>e. fst (is_good_file L p w) = Inl e) \<longleftrightarrow>
      (\<exists>c. stat (disk w) p = Some (File c) \<and> file_digest L BLKSIZE c \<noteq> FILESUM))
   \<and> (\<forall>e. fst (is_good_file L p w) = Inl e \<longrightarrow>
         (\<exists>c. stat (disk w) p = Some (File c) \<and>
              e = ChecksumMismatch (file_digest L BLKSIZE c) FILESUM))
   \<and> (\<forall>e. fst (is_good_file L (zip_path w) w) = Inl e \<longrightarrow>
         main L w = (Inl e, w) \<and> exit_status (main L w) = 1)
   \<and> (\<not> isfile (disk w) p \<longrightarrow> is_good_file L p w =
         (Inr False, log (''Local copy '' @ quoted (path_str p) @ '' not found'') w))
   \<and> (\<not> isfile (disk w) (zip_path w) \<longrightarrow>
         requests (snd (pipeline L w)) = requests w @ [URL])"
proof (intro conjI)
  show "(\<exists>e. fst (is_good_file L p w) = Inl e) \<longleftrightarrow>
      (\<exists>c. stat (disk w) p = Some (File c) \<and> file_digest L BLKSIZE c \<noteq> FILESUM)"
    by (auto simp: is_good_file_def Let_def split: option.splits node.splits if_splits)
  show "\<forall>e. fst (is_good_file L p w) = Inl e \<longrightarrow>
         (\<exists>c. stat (disk w) p = Some (File c) \<and>
              e = ChecksumMismatch (file_digest L BLKSIZE c) FILESUM)"
    by (auto simp: is_good_file_def Let_def split: option.splits node.splits if_splits)
  show "\<forall>e. fst (is_good_file L (zip_path w) w) = Inl e \<longrightarrow>
         main L w = (Inl e, w) \<and> exit_status (main L w) = 1"
  proof (intro allI impI)
    fix e assume raised: "fst (is_good_file L (zip_path w) w) = Inl e"
    then obtain c where c: "stat (disk w) (zip_path w) = Some (File c)"
      and bad: "file_digest L BLKSIZE c \<noteq> FILESUM"
      and e: "e = ChecksumMismatch (file_digest L BLKSIZE c) FILESUM"
      by (auto simp: is_good_file_def Let_def split: option.splits node.splits if_splits)
    have "pipeline L w = (Inl e, w)"
      using bad e by (simp add: pipeline_def fetch_loop_file [OF c])
    from main_pipeline_error [OF this]
    show "main L w = (Inl e, w) \<and> exit_status (main L w) = 1"
      by (simp add: exit_status_def)
  qed
  show "\<not> isfile (disk w) p \<longrightarrow> is_good_file L p w =
         (Inr False, log (''Local copy '' @ quoted (path_str p) @ '' not found'') w)"
    by (auto simp: is_good_file_def isfile_def split: option.splits node.splits)
  show "\<not> isfile (disk w) (zip_path w) \<longrightarrow>
         requests (snd (pipeline L w)) = requests w @ [URL]"
    by (simp add: pipeline_requests_absent)
qed

theorem C2_checksum_mismatch_iff_witness:
  "stat (disk (mock_world fs_corrupt)) (zip_path (mock_world fs_corrupt))
      = Some (File ''truncated'')
   \<and> file_digest mock_lib BLKSIZE ''truncated'' \<noteq> FILESUM
   \<and> (\<exists>e. fst (is_good_file mock_lib (zip_path (mock_world fs_corrupt))
               (mock_world fs_corrupt)) = Inl e)
   \<and> exit_status (main mock_lib (mock_world fs_corrupt)) = 1
   \<and> \<not> isfile (disk (mock_world fs_fresh)) (zip_path (mock_world fs_fresh))
   \<and> fst (is_good_file mock_lib (zip_path (mock_world fs_fresh)) (mock_world fs_fresh))
       = Inr False
   \<and> requests (snd (pipeline mock_lib (mock_world fs_fresh))) = [URL]"
proof -
  let ?wc = "mock_world fs_corrupt" and ?wf = "mock_world fs_fresh"
  have st: "stat (disk ?wc) (zip_path ?wc) = Some (File ''truncated'')"
    by (simp add: mock_paths mock_corrupt_stat)
  have bad: "file_digest mock_lib BLKSIZE ''truncated'' \<noteq> FILESUM"
    by (simp add: mock_digest_truncated FILESUM_def)
  have absent: "\<not> isfile (disk ?wf) (zip_path ?wf)"
    by (simp add: mock_paths mock_fresh_absent)
  note corrupt = C2_checksum_mismatch_iff [of mock_lib "zip_path ?wc" ?wc]
  note fresh = C2_checksum_mismatch_iff [of mock_lib "zip_path ?wf" ?wf]
  from corrupt st bad
  have raised: "\<exists>e. fst (is_good_file mock_lib (zip_path ?wc) ?wc) = Inl e"
    by blast
  with corrupt have status: "exit_status (main mock_lib ?wc) = 1"
    by blast
  from fresh absent
  have false: "fst (is_good_file mock_lib (zip_path ?wf) ?wf) = Inr False"
    and fetch: "requests (snd (pipeline mock_lib ?wf)) = [URL]"
    by simp_all
  from st bad raised status absent false fetch show ?thesis
    by blast
qed

text \<open>
  C1, as the code has it. A run that starts with an existing archive file whose bytes do
  not match the expected digest ends at once with the checksum-mismatch error and leaves
  everything as it was: the file is not deleted and nothing is fetched. The archive is
  fetched only when the file is absent, and then exactly once; when the fetched copy is
  complete and matches the digest, the loop ends successfully with that copy on disk.
\<close>

theorem C1_mismatch_aborts_absent_fetches_once:
  "(isfile (disk w) (zip_path w) \<and> \<not> archive_good L (zip_path w) (disk w) \<longrightarrow>
      (\<exists>d. d \<noteq> FILESUM \<and> main L w = (Inl (ChecksumMismatch d FILESUM), w)))
   \<and> (isfile (disk w) (zip_path w) \<longrightarrow>
        requests (snd (fetch_loop L (zip_path w) False w)) = requests w)
   \<and> (\<not> isfile (disk w) (zip_path w) \<longrightarrow>
        requests (snd (fetch_loop L (zip_path w) False w)) = requests w @ [URL])
   \<and> (\<not> isfile (disk w) (zip_path w) \<and>
       remote w (length (requests w)) URL = Some resp \<and>
       write_file (disk w) (zip_path w) (body resp) = Inr d' \<and>
       \<not> short_read resp \<and>
       file_digest L BLKSIZE (body resp) = FILESUM \<longrightarrow>
        fst (fetch_loop L (zip_path w) False w) = Inr True \<and>
        disk (snd (fetch_loop L (zip_path w) False w)) = d' \<and>
        archive_good L (zip_path w) d')"
proof (intro conjI impI)
  assume "isfile (disk w) (zip_path w) \<and> \<not> archive_good L (zip_path w) (disk w)"
  then obtain d where "d \<noteq> FILESUM" "pipeline L w = (Inl (ChecksumMismatch d FILESUM), w)"
    using pipeline_mismatch [of w L] by blast
  then show "\<exists>d. d \<noteq> FILESUM \<and> main L w = (Inl (ChecksumMismatch d FILESUM), w)"
    using main_pipeline_error by blast
next
  assume "isfile (disk w) (zip_path w)"
  then show "requests (snd (fetch_loop L (zip_path w) False w)) = requests w"
    by (simp add: fetch_loop_present(1))
next
  assume "\<not> isfile (disk w) (zip_path w)"
  then show "requests (snd (fetch_loop L (zip_path w) False w)) = requests w @ [URL]"
    by (rule fetch_loop_absent(1))
next
  assume h: "\<not> isfile (disk w) (zip_path w) \<and>
       remote w (length (requests w)) URL = Some resp \<and>
       write_file (disk w) (zip_path w) (body resp) = Inr d' \<and>
       \<not> short_read resp \<and>
       file_digest L BLKSIZE (body resp) = FILESUM"
  then show "fst (fetch_loop L (zip_path w) False w) = Inr True"
    by (simp add: fetch_loop_absent_good(1))
next
  assume h: "\<not> isfile (disk w) (zip_path w) \<and>
       remote w (length (requests w)) URL = Some resp \<and>
       write_file (disk w) (zip_path w) (body resp) = Inr d' \<and>
       \<not> short_read resp \<and>
       file_digest L BLKSIZE (body resp) = FILESUM"
  then show "disk (snd (fetch_loop L (zip_path w) False w)) = d'"
    by (simp add: fetch_loop_absent_good(2))
next
  assume h: "\<not> isfile (disk w) (zip_path w) \<and>
       remote w (length (requests w)) URL = Some resp \<and>
       write_file (disk w) (zip_path w) (body resp) = Inr d' \<and>
       \<not> short_read resp \<and>
       file_digest L BLKSIZE (body resp) = FILESUM"
  then have "write_file (disk w) (zip_path w) (body resp) = Inr d'"
    by simp
  from stat_write_file [OF this, of "zip_path w"]
  have "stat d' (zip_path w) = Some (File (body resp))"
    by simp
  with h show "archive_good L (zip_path w) d'"
    by (simp add: archive_good_def)
qed

theorem C1_mismatch_aborts_absent_fetches_once_witness:
  "isfile (disk (mock_world fs_corrupt)) (zip_path (mock_world fs_corrupt))
   \<and> \<not> archive_good mock_lib (zip_path (mock_world fs_corrupt)) (disk (mock_world fs_corrupt))
   \<and> (\<exists>d. d \<noteq> FILESUM \<and>
          main mock_lib (mock_world fs_corrupt) =
            (Inl (ChecksumMismatch d FILESUM), mock_world fs_corrupt))
   \<and> requests (snd (fetch_loop mock_lib (zip_path (mock_world fs_corrupt)) False
                      (mock_world fs_corrupt))) = []
   \<and> \<not> isfile (disk (mock_world fs_fresh)) (zip_path (mock_world fs_fresh))
   \<and> remote (mock_world fs_fresh) (length (requests (mock_world fs_fresh))) URL
        = Some \<lparr>body = good_archive, content_length = Some 12\<rparr>
   \<and> \<not> short_read \<lparr>body = good_archive, content_length = Some 12\<rparr>
   \<and> file_digest mock_lib BLKSIZE good_archive = FILESUM
   \<and> requests (snd (fetch_loop mock_lib (zip_path (mock_world fs_fresh)) False
                      (mock_world fs_fresh))) = [URL]
   \<and> fst (fetch_loop mock_lib (zip_path (mock_world fs_fresh)) False (mock_world fs_fresh))
        = Inr True
   \<and> disk (snd (fetch_loop mock_lib (zip_path (mock_world fs_fresh)) False
                  (mock_world fs_fresh)))
        = ([''babel'', ''cldr'', ''core-31.0.1.zip''], File good_archive) # fs_fresh"
proof -
  let ?wc = "mock_world fs_corrupt" and ?wf = "mock_world fs_fresh"
  let ?resp = "\<lparr>body = good_archive, content_length = Some 12\<rparr>"
  let ?d' = "([''babel'', ''cldr'', ''core-31.0.1.zip''], File good_archive) # fs_fresh"
  have present: "isfile (disk ?wc) (zip_path ?wc)"
    by (simp add: mock_paths isfile_stat mock_corrupt_stat)
  have bad: "\<not> archive_good mock_lib (zip_path ?wc) (disk ?wc)"
    by (simp add: mock_paths archive_good_def mock_corrupt_stat mock_digest_truncated
        FILESUM_def)
  have absent: "\<not> isfile (disk ?wf) (zip_path ?wf)"
    by (simp add: mock_paths mock_fresh_absent)
  have resp: "remote ?wf (length (requests ?wf)) URL = Some ?resp"
    by (simp add: mock_remote_URL)
  have wr: "write_file (disk ?wf) (zip_path ?wf) (body ?resp) = Inr ?d'"
    by (simp add: mock_paths mock_fresh_write)
  have good: "file_digest mock_lib BLKSIZE (body ?resp) = FILESUM"
    by (simp add: mock_digest_good)
  note corrupt = C1_mismatch_aborts_absent_fetches_once [of ?wc mock_lib]
  note fresh = C1_mismatch_aborts_absent_fetches_once
    [of ?wf mock_lib ?resp ?d']
  from corrupt present bad
  have c1: "\<exists>d. d \<noteq> FILESUM \<and> main mock_lib ?wc = (Inl (ChecksumMismatch d FILESUM), ?wc)"
    and c2: "requests (snd (fetch_loop mock_lib (zip_path ?wc) False ?wc)) = []"
    by simp_all
  from fresh absent resp wr mock_full_read good
  have f1: "requests (snd (fetch_loop mock_lib (zip_path ?wf) False ?wf)) = [URL]"
    and f2: "fst (fetch_loop mock_lib (zip_path ?wf) False ?wf) = Inr True"
    and f3: "disk (snd (fetch_loop mock_lib (zip_path ?wf) False ?wf)) = ?d'"
    by simp_all
  from present bad c1 c2 absent resp mock_full_read good f1 f2 f3 show ?thesis
    by simp
qed

text \<open>
  C1 as stated fails: on a corrupt archive the run ends with the error, the corrupt file
  is still on disk and no request was made.
\<close>

theorem C1_corrupt_archive_counterexample:
  "file_digest mock_lib BLKSIZE ''truncated'' \<noteq> FILESUM
   \<and> stat (disk (mock_world fs_corrupt)) (zip_path (mock_world fs_corrupt))
        = Some (File ''truncated'')
   \<and> fst (main mock_lib (mock_world fs_corrupt))
        = Inl (ChecksumMismatch ''da39a3ee5e6b4b0d3255bfef95601890afd80709'' FILESUM)
   \<and> stat (disk (snd (main mock_lib (mock_world fs_corrupt))))
           (zip_path (mock_world fs_corrupt))
        = Some (File ''truncated'')
   \<and> requests (snd (main mock_lib (mock_world fs_corrupt))) = []"
  by (simp add: mock_corrupt_run mock_paths mock_corrupt_stat mock_digest_truncated
      FILESUM_def)




text \<open>
  C7. When the fetch-verify-extract pipeline and the seed mirror have both completed
  successfully, \<open>main\<close> starts the delegate exactly once, as interpreter, conversion script
  and the extraction root as the only argument after them; a non-zero exit status is
  raised as \<open>CalledProcessError\<close>, nothing catches it, and the run ends with a non-zero
  status. When pipeline or mirror fail, the delegate is not started.
\<close>

theorem C7_delegate_invoked_once:
  "(fst (before_import L w) = Inr () \<longrightarrow>
      calls (snd (main L w)) = calls w @ [import_argv w]
      \<and> import_argv w = [executable w, scripts_path w @ [''import_cldr.py''], cldr_path w]
      \<and> (importer w (import_argv w) (disk (snd (before_import L w))) \<noteq> 0 \<longrightarrow>
           fst (main L w) =
             Inl (CalledProcessError (importer w (import_argv w) (disk (snd (before_import L w)))))
           \<and> exit_status (main L w) \<noteq> 0)
      \<and> (importer w (import_argv w) (disk (snd (before_import L w))) = 0 \<longrightarrow>
           fst (main L w) = Inr () \<and> exit_status (main L w) = 0))
   \<and> (fst (before_import L w) \<noteq> Inr () \<longrightarrow>
        calls (snd (main L w)) = calls w \<and> exit_status (main L w) \<noteq> 0)"
proof -
  obtain r w3 where b: "before_import L w = (r, w3)" by (cases "before_import L w")
  from before_import_ambient [of w L] b have amb: "same_ambient w w3" by simp
  then have argv: "import_argv w3 = import_argv w" by (rule import_argv_ambient)
  from amb have same: "calls w3 = calls w" "importer w3 = importer w"
    by (simp_all add: same_ambient_def)
  show ?thesis
  proof (cases r)
    case (Inl e)
    with b same show ?thesis
      by (simp add: main_before_import exit_status_def)
  next
    case (Inr u)
    have run: "import_cldr w3 = check_call (import_argv w) w3"
      using argv by (simp add: import_cldr_def import_argv_def)
    from b Inr same show ?thesis
      by (simp add: main_before_import run check_call_def Let_def exit_status_def
          import_argv_def)
  qed
qed

theorem C7_delegate_invoked_once_witness:
  "fst (before_import mock_lib (mock_world fs_complete)) = Inr ()
   \<and> calls (snd (main mock_lib (mock_world fs_complete))) =
       [[[''usr'', ''bin'', ''python''],
         [''babel'', ''scripts'', ''import_cldr.py''],
         [''babel'', ''cldr'', ''core-31.0.1'']]]
   \<and> importer ((mock_world fs_complete)\<lparr>importer := \<lambda>argv d. 2\<rparr>)
        (import_argv ((mock_world fs_complete)\<lparr>importer := \<lambda>argv d. 2\<rparr>))
        (disk (snd (before_import mock_lib ((mock_world fs_complete)\<lparr>importer := \<lambda>argv d. 2\<rparr>))))
       \<noteq> 0
   \<and> fst (before_import mock_lib ((mock_world fs_complete)\<lparr>importer := \<lambda>argv d. 2\<rparr>)) = Inr ()
   \<and> fst (main mock_lib ((mock_world fs_complete)\<lparr>importer := \<lambda>argv d. 2\<rparr>))
       = Inl (CalledProcessError 2)
   \<and> exit_status (main mock_lib ((mock_world fs_complete)\<lparr>importer := \<lambda>argv d. 2\<rparr>)) \<noteq> 0
   \<and> fst (before_import mock_lib (mock_world fs_corrupt)) \<noteq> Inr ()
   \<and> calls (snd (main mock_lib (mock_world fs_corrupt))) = []"
proof -
  let ?w = "mock_world fs_complete"
  let ?w2 = "?w\<lparr>importer := \<lambda>argv d. 2\<rparr>"
  let ?wc = "mock_world fs_corrupt"
  have ok: "fst (before_import mock_lib ?w) = Inr ()"
    by (rule mock_complete_before_import)
  have ok2: "fst (before_import mock_lib ?w2) = Inr ()"
    by (rule mock_complete_before_import_failing)
  have bad: "fst (before_import mock_lib ?wc) \<noteq> Inr ()"
    using mock_corrupt_pipeline by (simp add: before_import_def)
  have argv: "import_argv ?w =
       [[''usr'', ''bin'', ''python''],
         [''babel'', ''scripts'', ''import_cldr.py''],
         [''babel'', ''cldr'', ''core-31.0.1'']]"
    by (simp add: import_argv_def mock_paths) (simp add: mock_world_def)
  have rc: "importer ?w2 (import_argv ?w2) (disk (snd (before_import mock_lib ?w2))) = 2"
    by (simp add: mock_world_def)
  from C7_delegate_invoked_once [of mock_lib ?w] ok argv
  have c1: "calls (snd (main mock_lib ?w)) =
       [[[''usr'', ''bin'', ''python''],
         [''babel'', ''scripts'', ''import_cldr.py''],
         [''babel'', ''cldr'', ''core-31.0.1'']]]"
    by simp
  from C7_delegate_invoked_once [of mock_lib ?w2] ok2 rc
  have c2: "fst (main mock_lib ?w2) = Inl (CalledProcessError 2)"
    and c3: "exit_status (main mock_lib ?w2) \<noteq> 0"
    by simp_all
  from C7_delegate_invoked_once [of mock_lib ?wc] bad
  have c4: "calls (snd (main mock_lib ?wc)) = []"
    by simp
  from ok c1 rc ok2 c2 c3 bad c4 show ?thesis
    by simp
qed

text \<open>
  C5. A run that starts where the previous one left a digest-valid archive, the extracted
  \<open>common\<close> directory, the cached index page and every seed file that passes the filter
  makes no network request at all: the request log at the end of \<open>main\<close> is the one at
  its start, whatever the delegate then answers.
\<close>

theorem C5_second_run_no_requests:
  assumes "archive_good L (zip_path w) (disk w)"
    and "isdir (disk w) (common_path w)"
    and "exists_path (disk w) (html_path w)"
    and "seeds_present L w"
  shows "requests (snd (main L w)) = requests w"
proof -
  have p: "pipeline L w = (Inr (), w)"
    using assms(1,2) by (rule pipeline_valid_skip)
  let ?g = "get_seed_files L (cldr_dl_path w) (cldr_path w) w"
  have g: "requests (snd ?g) = requests w"
    using assms(3,4) by (rule get_seed_files_cached_no_requests)
  obtain r w3 where r: "?g = (r, w3)" by (cases ?g)
  with g have "requests w3 = requests w" by simp
  with r p show ?thesis
    by (cases r) (simp_all add: main_def import_cldr_requests)
qed

theorem C5_second_run_no_requests_witness:
  "archive_good mock_lib (zip_path (mock_world fs_complete)) (disk (mock_world fs_complete))
   \<and> isdir (disk (mock_world fs_complete)) (common_path (mock_world fs_complete))
   \<and> exists_path (disk (mock_world fs_complete)) (html_path (mock_world fs_complete))
   \<and> seeds_present mock_lib (mock_world fs_complete)
   \<and> requests (snd (main mock_lib (mock_world fs_complete))) = []
   \<and> fst (main mock_lib (mock_world fs_complete)) = Inr ()"
proof -
  let ?w = "mock_world fs_complete"
  have good: "archive_good mock_lib (zip_path ?w) (disk ?w)"
    by (simp add: archive_good_def mock_paths mock_complete_stat mock_digest_good)
  have dir: "isdir (disk ?w) (common_path ?w)"
    by (simp add: isdir_def mock_paths mock_complete_stat)
  have cached: "exists_path (disk ?w) (html_path ?w)"
    by (simp add: exists_path_def mock_paths mock_complete_stat)
  have parsed: "xml_parse mock_lib ''index'' = Some mock_index"
    by (simp add: mock_lib_def)
  have seeds: "seeds_present mock_lib ?w"
    by (simp add: seeds_present_def parse_file_def mock_paths mock_complete_stat parsed
        mock_seed_names exists_path_def)
  have ok: "fst (main mock_lib ?w) = Inr ()"
    using mock_complete_run [of ?w]
    by (simp add: main_before_import mock_repo import_cldr_def check_call_def Let_def)
       (simp add: mock_world_def)
  from C5_second_run_no_requests [OF good dir cached seeds] good dir cached seeds ok
  show ?thesis by simp
qed

end
